theory Spec2Isabelle
  imports Main
begin

section \<open>The Book of bkper-app: lazy loading and cache invalidation\<close>

text \<open>
  A shallow embedding of the class \<open>Book\<close> of \<open>src/Book.ts\<close>. The private fields of
  the class are the fields of a record, \<open>null\<close> and \<open>undefined\<close> are \<open>None\<close>
  (the source tests them with \<open>== null\<close>, which does not tell them apart), a thrown
  exception is \<open>Inl\<close> of a result, and every method takes the state and returns it.
  The state is the Book together with the list of the remote calls made so far.

  The lookup objects (\<open>new Object()\<close>) hold their own properties in a map from
  property names to entities; a read of a name they do not hold goes on to
  \<open>Object.prototype\<close>, as it does in JavaScript, and finds what is inherited there.

  The private methods of the source end in an underscore (\<open>loadBook_\<close>,
  \<open>checkBookLoaded_\<close>, \<open>checkAccountsLoaded_\<close>, \<open>configureGroups_\<close>,
  \<open>configureAccounts_\<close>, \<open>configureTransactions_\<close>, \<open>clearBookCache_\<close>); a name
  cannot end so here, and the definitions drop it.
\<close>

subsection \<open>Payloads of the remote service (namespace \<open>bkper\<close>)\<close>

record bkGroup =
  grp_id :: "string option"
  grp_name :: string

record bkAccount =
  acc_id :: "string option"
  acc_name :: "string option"
  acc_type :: string
  acc_groups :: "string option list"

record bkTransaction =
  tx_id :: "string option"
  tx_description :: string

record bkQuery =
  qry_id :: string
  qry_query :: string
  qry_title :: string

record bkBook =
  bk_name :: string
  bk_fractionDigits :: int
  bk_ownerName :: string
  bk_permission :: string
  bk_collection :: "string option"
  bk_datePattern :: string
  bk_decimalSeparator :: string
  bk_timeZone :: string
  bk_timeZoneOffset :: int
  bk_lastUpdateMs :: string
  bk_properties :: "(string \<rightharpoonup> string) option"
  bk_groups :: "bkGroup list"
  bk_accounts :: "bkAccount list"

subsection \<open>Entities\<close>

text \<open>
  An entity wraps its payload and holds a back-reference to the Book that owns it; the
  reference is modelled by the id of that Book. \<open>Utils_.wrapObjects\<close> wraps each
  payload of a list, in order. The account and group lists of a loaded ledger are always
  present.
\<close>

record Group =
  group_wrapped :: bkGroup
  group_book :: "string option"

record Account =
  account_wrapped :: bkAccount
  account_book :: "string option"

record Transaction =
  transaction_wrapped :: bkTransaction
  transaction_book :: "string option"

record Collection =
  collection_wrapped :: string

subsection \<open>Errors, remote calls and collaborators\<close>

datatype error =
    ServiceError string
  | TypeError

datatype recordInput =
    Text string
  | Row "string list"
  | Matrix "string list list"

datatype call =
    LoadBookWrapped string
  | CreateTransactionsBatch string "bkTransaction list"
  | RecordTransactions string recordInput string
  | CreateAccounts string "bkAccount list"
  | CreateAccountV2 string string "string option" "string option"
  | CreateGroups string "bkGroup list"
  | GetSavedQueries string

datatype AccountType = ASSET | LIABILITY | INCOMING | OUTGOING

text \<open>
  The services (\<open>BookService_\<close>, \<open>TransactionService_\<close>, \<open>AccountService_\<close>,
  \<open>GroupService_\<close>, \<open>SavedQueryService_\<close>), the function \<open>normalizeName\<close>, the method
  \<open>Account.getNormalizedName\<close>, the values of the enum \<open>AccountType\<close> and the number
  conversion are not part of \<open>Book.ts\<close>: they are parameters. A service answers
  from the calls made before and its arguments, with an error or a payload.

  Two parts of the JavaScript runtime are parameters as well: \<open>String.prototype.trim\<close>
  (\<open>trim\<close>, whatever white space and line terminators the runtime strips), and the set
  of the names of the properties of \<open>Object.prototype\<close> (\<open>objectPrototype\<close>:
  \<open>constructor\<close>, \<open>toString\<close> and so on), which every plain object inherits.
\<close>

record env =
  trim :: "string \<Rightarrow> string"
  objectPrototype :: "string \<Rightarrow> bool"
  normalizeName :: "string \<Rightarrow> string"
  accountNormalizedName :: "bkAccount \<Rightarrow> string"
  accountTypeValue :: "AccountType \<Rightarrow> string"
  toNumber :: "string \<Rightarrow> int"
  loadBookWrapped :: "call list \<Rightarrow> string \<Rightarrow> error + bkBook"
  createTransactionsBatch :: "call list \<Rightarrow> string \<Rightarrow> bkTransaction list \<Rightarrow> error + bkTransaction list"
  recordTransactions :: "call list \<Rightarrow> string \<Rightarrow> recordInput \<Rightarrow> string \<Rightarrow> error + unit"
  createAccountsService :: "call list \<Rightarrow> string \<Rightarrow> bkAccount list \<Rightarrow> error + bkAccount list"
  createAccountV2 :: "call list \<Rightarrow> string \<Rightarrow> string \<Rightarrow> string option \<Rightarrow> string option \<Rightarrow> error + bkAccount"
  createGroupsService :: "call list \<Rightarrow> string \<Rightarrow> bkGroup list \<Rightarrow> error + bkGroup list"
  getSavedQueriesService :: "call list \<Rightarrow> string \<Rightarrow> error + bkQuery list"

subsection \<open>The Book\<close>

record Book =
  book_id :: string
  wrapped :: "bkBook option"
  accounts :: "Account list option"
  groups :: "Group list option"
  collection :: "Collection option"
  idAccountMap :: "(string \<rightharpoonup> Account) option"
  nameAccountMap :: "(string \<rightharpoonup> Account) option"
  idGroupMap :: "(string \<rightharpoonup> Group) option"
  nameGroupMap :: "(string \<rightharpoonup> Group) option"
  savedQueries :: "bkQuery list option"

type_synonym state = "Book \<times> call list"

type_synonym 'a outcome = "(error + 'a) \<times> state"

text \<open>The constructor: \<open>new Book(id, wrapped?)\<close>.\<close>

definition newBook :: "string \<Rightarrow> bkBook option \<Rightarrow> Book" where
  "newBook i w =
     \<lparr>book_id = i, wrapped = w, accounts = None, groups = None, collection = None,
      idAccountMap = None, nameAccountMap = None, idGroupMap = None, nameGroupMap = None,
      savedQueries = None\<rparr>"

definition getId :: "Book \<Rightarrow> string" where
  "getId b = book_id b"

text \<open>Sequencing of two steps: an exception of the first step ends the method.\<close>

definition andThen :: "(state \<Rightarrow> 'a outcome) \<Rightarrow> ('a \<Rightarrow> state \<Rightarrow> 'b outcome) \<Rightarrow> state \<Rightarrow> 'b outcome" where
  "andThen m f s = (case m s of (Inl e, s') \<Rightarrow> (Inl e, s') | (Inr x, s') \<Rightarrow> f x s')"

definition succeed :: "'a \<Rightarrow> state \<Rightarrow> 'a outcome" where
  "succeed x s = (Inr x, s)"

text \<open>A property name: \<open>undefined\<close> used as a key is the string \<open>undefined\<close>.\<close>

definition jsKey :: "string option \<Rightarrow> string" where
  "jsKey k = (case k of None \<Rightarrow> ''undefined'' | Some s \<Rightarrow> s)"

text \<open>
  What \<open>obj[k]\<close> gives for a plain object: its own property \<open>k\<close> if it has one, or
  else the member of \<open>Object.prototype\<close> named \<open>k\<close> (a function, or the prototype
  itself for \<open>__proto__\<close>: not null, not a string and not an entity), or else
  \<open>undefined\<close>.
\<close>

datatype 'a member =
    Own 'a
  | Inherited string

definition readProperty :: "env \<Rightarrow> (string \<rightharpoonup> 'a) \<Rightarrow> string \<Rightarrow> 'a member option" where
  "readProperty env obj k =
     (case obj k of
        Some v \<Rightarrow> Some (Own v)
      | None \<Rightarrow> if objectPrototype env k then Some (Inherited k) else None)"

subsection \<open>Loading\<close>

definition wrapGroups :: "bkGroup list \<Rightarrow> Group list" where
  "wrapGroups gs = map (\<lambda>g. \<lparr>group_wrapped = g, group_book = None\<rparr>) gs"

definition wrapAccounts :: "bkAccount list \<Rightarrow> Account list" where
  "wrapAccounts xs = map (\<lambda>a. \<lparr>account_wrapped = a, account_book = None\<rparr>) xs"

definition wrapTransactions :: "bkTransaction list \<Rightarrow> Transaction list" where
  "wrapTransactions xs = map (\<lambda>t. \<lparr>transaction_wrapped = t, transaction_book = None\<rparr>) xs"

definition groupGetId :: "Group \<Rightarrow> string option" where
  "groupGetId g = grp_id (group_wrapped g)"

definition groupGetName :: "Group \<Rightarrow> string" where
  "groupGetName g = grp_name (group_wrapped g)"

definition accountGetId :: "Account \<Rightarrow> string option" where
  "accountGetId a = acc_id (account_wrapped a)"

definition accountGetNormalizedName :: "env \<Rightarrow> Account \<Rightarrow> string" where
  "accountGetNormalizedName env a = accountNormalizedName env (account_wrapped a)"

text \<open>
  One turn of the loop of \<open>configureGroups\<close>: the group is bound to the Book and
  stored under its id and under its normalized name. The list and the two maps hold the
  same objects, so the list gets the bound group too.
\<close>

definition configureGroup_step ::
  "env \<Rightarrow> string \<Rightarrow> Group list \<times> (string \<rightharpoonup> Group) \<times> (string \<rightharpoonup> Group) \<Rightarrow> Group
     \<Rightarrow> Group list \<times> (string \<rightharpoonup> Group) \<times> (string \<rightharpoonup> Group)" where
  "configureGroup_step env bid acc g =
     (case acc of (seen, idm, nm) \<Rightarrow>
        let group = g\<lparr>group_book := Some bid\<rparr> in
        (seen @ [group],
         idm(jsKey (groupGetId group) \<mapsto> group),
         nm(normalizeName env (groupGetName group) \<mapsto> group)))"

definition configureGroups :: "env \<Rightarrow> bkGroup list \<Rightarrow> Book \<Rightarrow> Book" where
  "configureGroups env gs b =
     (case foldl (configureGroup_step env (getId b)) ([], Map.empty, Map.empty) (wrapGroups gs) of
        (seen, idm, nm) \<Rightarrow>
          b\<lparr>groups := Some seen, idGroupMap := Some idm, nameGroupMap := Some nm\<rparr>)"

definition configureAccount_step ::
  "env \<Rightarrow> string \<Rightarrow> Account list \<times> (string \<rightharpoonup> Account) \<times> (string \<rightharpoonup> Account) \<Rightarrow> Account
     \<Rightarrow> Account list \<times> (string \<rightharpoonup> Account) \<times> (string \<rightharpoonup> Account)" where
  "configureAccount_step env bid acc a =
     (case acc of (seen, idm, nm) \<Rightarrow>
        let account = a\<lparr>account_book := Some bid\<rparr> in
        (seen @ [account],
         idm(jsKey (accountGetId account) \<mapsto> account),
         nm(accountGetNormalizedName env account \<mapsto> account)))"

definition configureAccounts :: "env \<Rightarrow> bkAccount list \<Rightarrow> Book \<Rightarrow> Book" where
  "configureAccounts env xs b =
     (case foldl (configureAccount_step env (getId b)) ([], Map.empty, Map.empty) (wrapAccounts xs) of
        (seen, idm, nm) \<Rightarrow>
          b\<lparr>accounts := Some seen, idAccountMap := Some idm, nameAccountMap := Some nm\<rparr>)"

text \<open>
  A call of a service: the call is appended to the log, and the service answers from the
  log as it was before.
\<close>

definition remoteCall :: "(string \<Rightarrow> call) \<Rightarrow> (call list \<Rightarrow> string \<Rightarrow> error + 'a) \<Rightarrow> state \<Rightarrow> 'a outcome" where
  "remoteCall c answer s =
     (case s of (b, tr) \<Rightarrow> (answer tr (getId b), (b, tr @ [c (getId b)])))"

text \<open>\<open>BookService_.loadBookWrapped(this.getId())\<close>\<close>

definition callLoadBookWrapped :: "env \<Rightarrow> state \<Rightarrow> bkBook outcome" where
  "callLoadBookWrapped env = remoteCall LoadBookWrapped (loadBookWrapped env)"

definition loadBook :: "env \<Rightarrow> state \<Rightarrow> unit outcome" where
  "loadBook env =
     andThen (callLoadBookWrapped env) (\<lambda>w s.
       case s of (b, tr) \<Rightarrow>
         (Inr (),
          (configureAccounts env (bk_accounts w)
             (configureGroups env (bk_groups w) (b\<lparr>wrapped := Some w\<rparr>)), tr)))"

definition checkBookLoaded :: "env \<Rightarrow> state \<Rightarrow> unit outcome" where
  "checkBookLoaded env s =
     (if wrapped (fst s) = None then loadBook env s else (Inr (), s))"

definition checkAccountsLoaded :: "env \<Rightarrow> state \<Rightarrow> unit outcome" where
  "checkAccountsLoaded env s =
     (if wrapped (fst s) = None \<or> idAccountMap (fst s) = None \<or> idAccountMap (fst s) = None
      then loadBook env s else (Inr (), s))"

subsection \<open>Metadata accessors\<close>

text \<open>\<open>this.wrapped.f\<close>: a TypeError when \<open>wrapped\<close> is null.\<close>

definition readWrapped :: "(bkBook \<Rightarrow> 'a) \<Rightarrow> state \<Rightarrow> 'a outcome" where
  "readWrapped f s =
     (case wrapped (fst s) of None \<Rightarrow> (Inl TypeError, s) | Some w \<Rightarrow> (Inr (f w), s))"

definition getName :: "env \<Rightarrow> state \<Rightarrow> string outcome" where
  "getName env = andThen (checkBookLoaded env) (\<lambda>_. readWrapped bk_name)"

definition getFractionDigits :: "env \<Rightarrow> state \<Rightarrow> int outcome" where
  "getFractionDigits env = andThen (checkBookLoaded env) (\<lambda>_. readWrapped bk_fractionDigits)"

definition getOwnerName :: "env \<Rightarrow> state \<Rightarrow> string outcome" where
  "getOwnerName env = andThen (checkBookLoaded env) (\<lambda>_. readWrapped bk_ownerName)"

definition getPermission :: "env \<Rightarrow> state \<Rightarrow> string outcome" where
  "getPermission env = andThen (checkBookLoaded env) (\<lambda>_. readWrapped bk_permission)"

definition getDatePattern :: "env \<Rightarrow> state \<Rightarrow> string outcome" where
  "getDatePattern env = andThen (checkBookLoaded env) (\<lambda>_. readWrapped bk_datePattern)"

definition getDecimalSeparator :: "env \<Rightarrow> state \<Rightarrow> string outcome" where
  "getDecimalSeparator env = andThen (checkBookLoaded env) (\<lambda>_. readWrapped bk_decimalSeparator)"

definition getTimeZone :: "env \<Rightarrow> state \<Rightarrow> string outcome" where
  "getTimeZone env = andThen (checkBookLoaded env) (\<lambda>_. readWrapped bk_timeZone)"

definition getTimeZoneOffset :: "env \<Rightarrow> state \<Rightarrow> int outcome" where
  "getTimeZoneOffset env = andThen (checkBookLoaded env) (\<lambda>_. readWrapped bk_timeZoneOffset)"

definition getLastUpdateMs :: "env \<Rightarrow> state \<Rightarrow> int outcome" where
  "getLastUpdateMs env =
     andThen (checkBookLoaded env) (\<lambda>_. readWrapped (\<lambda>w. toNumber env (bk_lastUpdateMs w)))"

definition getProperties :: "env \<Rightarrow> state \<Rightarrow> (string \<rightharpoonup> string) outcome" where
  "getProperties env =
     andThen (checkBookLoaded env) (\<lambda>_.
       readWrapped (\<lambda>w. case bk_properties w of None \<Rightarrow> Map.empty | Some p \<Rightarrow> p))"

text \<open>
  The loop of \<open>getProperty\<close>. A value that is inherited is not null and has no
  \<open>trim\<close>: calling it is a TypeError.
\<close>

fun getProperty_loop :: "env \<Rightarrow> (string \<rightharpoonup> string) option \<Rightarrow> string list \<Rightarrow> error + string option" where
  "getProperty_loop env props [] = Inr None"
| "getProperty_loop env props (key # keys) =
     (case (case props of None \<Rightarrow> None | Some p \<Rightarrow> readProperty env p key) of
        None \<Rightarrow> getProperty_loop env props keys
      | Some (Own v) \<Rightarrow> if trim env v \<noteq> [] then Inr (Some v) else getProperty_loop env props keys
      | Some (Inherited _) \<Rightarrow> Inl TypeError)"

definition getProperty :: "env \<Rightarrow> string list \<Rightarrow> state \<Rightarrow> string option outcome" where
  "getProperty env keys =
     andThen (checkBookLoaded env) (\<lambda>_ s.
       case wrapped (fst s) of
         None \<Rightarrow> (Inl TypeError, s)
       | Some w \<Rightarrow> (getProperty_loop env (bk_properties w) keys, s))"

definition getCollection :: "env \<Rightarrow> state \<Rightarrow> Collection option outcome" where
  "getCollection env =
     andThen (checkAccountsLoaded env) (\<lambda>_ s.
       case s of (b, tr) \<Rightarrow>
         (case wrapped b of
            None \<Rightarrow> (Inl TypeError, s)
          | Some w \<Rightarrow>
              (case bk_collection w of
                 None \<Rightarrow> (Inr (collection b), s)
               | Some c \<Rightarrow>
                   if collection b = None
                   then (Inr (Some \<lparr>collection_wrapped = c\<rparr>),
                         (b\<lparr>collection := Some \<lparr>collection_wrapped = c\<rparr>\<rparr>, tr))
                   else (Inr (collection b), s))))"

subsection \<open>Cache clearing\<close>

definition clearAccountsCache :: "Book \<Rightarrow> Book" where
  "clearAccountsCache b = b\<lparr>idAccountMap := None, idGroupMap := None\<rparr>"

definition clearBookCache :: "Book \<Rightarrow> Book" where
  "clearBookCache b = b\<lparr>wrapped := None\<rparr>"

subsection \<open>Transactions\<close>

definition configureTransaction :: "Book \<Rightarrow> Transaction \<Rightarrow> Transaction" where
  "configureTransaction b t = t\<lparr>transaction_book := Some (getId b)\<rparr>"

definition configureTransactions :: "Book \<Rightarrow> Transaction list \<Rightarrow> Transaction list" where
  "configureTransactions b ts = map (configureTransaction b) ts"

definition callCreateTransactionsBatch :: "env \<Rightarrow> bkTransaction list \<Rightarrow> state \<Rightarrow> bkTransaction list outcome" where
  "callCreateTransactionsBatch env payloads =
     remoteCall (\<lambda>i. CreateTransactionsBatch i payloads) (\<lambda>tr i. createTransactionsBatch env tr i payloads)"

definition batchCreateTransactions :: "env \<Rightarrow> Transaction list \<Rightarrow> state \<Rightarrow> Transaction list outcome" where
  "batchCreateTransactions env transactions =
     andThen (callCreateTransactionsBatch env (map transaction_wrapped transactions)) (\<lambda>payloads s.
       case s of (b, tr) \<Rightarrow>
         (Inr (configureTransactions b (wrapTransactions payloads)), (clearAccountsCache b, tr)))"

text \<open>
  \<open>TransactionService_.record(this, transactions, timeZone)\<close> is a remote call like the
  others: it is given the Book, and the model takes it not to touch the Book's fields.
\<close>

definition callRecord :: "env \<Rightarrow> recordInput \<Rightarrow> string \<Rightarrow> state \<Rightarrow> unit outcome" where
  "callRecord env transactions timeZone =
     remoteCall (\<lambda>i. RecordTransactions i transactions timeZone)
       (\<lambda>tr i. recordTransactions env tr i transactions timeZone)"

text \<open>The method \<open>record\<close> (the name is a keyword here).\<close>

definition record_op :: "env \<Rightarrow> recordInput \<Rightarrow> string option \<Rightarrow> state \<Rightarrow> unit outcome" where
  "record_op env transactions timeZone =
     andThen
       (case timeZone of
          None \<Rightarrow> getTimeZone env
        | Some tz \<Rightarrow> if trim env tz = [] then getTimeZone env else succeed tz)
       (\<lambda>tz. andThen (callRecord env transactions tz) (\<lambda>_ s.
          (Inr (), (clearAccountsCache (fst s), snd s))))"

subsection \<open>Accounts and groups\<close>

definition getAccounts :: "env \<Rightarrow> state \<Rightarrow> Account list option outcome" where
  "getAccounts env = andThen (checkAccountsLoaded env) (\<lambda>_ s. (Inr (accounts (fst s)), s))"

definition getGroups :: "env \<Rightarrow> state \<Rightarrow> Group list option outcome" where
  "getGroups env = andThen (checkAccountsLoaded env) (\<lambda>_ s. (Inr (groups (fst s)), s))"

text \<open>
  \<open>getAccount\<close> and \<open>getGroup\<close>: reading a property of a map that is null is a
  TypeError; a property that is not there is \<open>undefined\<close>, which \<open>== null\<close> accepts, and
  an inherited one is not null, so it is what the method returns.
\<close>

definition getAccount :: "env \<Rightarrow> string option \<Rightarrow> state \<Rightarrow> Account member option outcome" where
  "getAccount env idOrName s =
     (case idOrName of
        None \<Rightarrow> (Inr None, s)
      | Some k \<Rightarrow>
          andThen (checkAccountsLoaded env) (\<lambda>_ s'.
            case idAccountMap (fst s') of
              None \<Rightarrow> (Inl TypeError, s')
            | Some idm \<Rightarrow>
                (case readProperty env idm k of
                   Some account \<Rightarrow> (Inr (Some account), s')
                 | None \<Rightarrow>
                     (case nameAccountMap (fst s') of
                        None \<Rightarrow> (Inl TypeError, s')
                      | Some nm \<Rightarrow> (Inr (readProperty env nm (normalizeName env k)), s')))) s)"

definition getGroup :: "env \<Rightarrow> string option \<Rightarrow> state \<Rightarrow> Group member option outcome" where
  "getGroup env idOrName s =
     (case idOrName of
        None \<Rightarrow> (Inr None, s)
      | Some k \<Rightarrow>
          andThen (checkAccountsLoaded env) (\<lambda>_ s'.
            case idGroupMap (fst s') of
              None \<Rightarrow> (Inl TypeError, s')
            | Some idm \<Rightarrow>
                (case readProperty env idm k of
                   Some g \<Rightarrow> (Inr (Some g), s')
                 | None \<Rightarrow>
                     (case nameGroupMap (fst s') of
                        None \<Rightarrow> (Inl TypeError, s')
                      | Some nm \<Rightarrow> (Inr (readProperty env nm (normalizeName env k)), s')))) s)"

definition callCreateAccounts :: "env \<Rightarrow> bkAccount list \<Rightarrow> state \<Rightarrow> bkAccount list outcome" where
  "callCreateAccounts env payloads =
     remoteCall (\<lambda>i. CreateAccounts i payloads) (\<lambda>tr i. createAccountsService env tr i payloads)"

text \<open>
  The tail shared by \<open>batchCreateAccounts\<close> and \<open>createAccounts\<close>: the remote call,
  \<open>clearBookCache_\<close>, and the binding of the created accounts to the Book.
\<close>

definition createAccountsPayloads :: "env \<Rightarrow> bkAccount list \<Rightarrow> state \<Rightarrow> Account list outcome" where
  "createAccountsPayloads env accountsPayloads =
     (if length accountsPayloads > 0
      then andThen (callCreateAccounts env accountsPayloads) (\<lambda>createdAccountsPlain s.
             case s of (b, tr) \<Rightarrow>
               (Inr (map (\<lambda>account. account\<lparr>account_book := Some (getId b)\<rparr>)
                       (wrapAccounts createdAccountsPlain)),
                (clearBookCache b, tr)))
      else succeed [])"

definition batchCreateAccounts :: "env \<Rightarrow> Account list \<Rightarrow> state \<Rightarrow> Account list outcome" where
  "batchCreateAccounts env accs = createAccountsPayloads env (map account_wrapped accs)"

definition isType :: "env \<Rightarrow> string \<Rightarrow> bool" where
  "isType env groupOrType =
     (if groupOrType = accountTypeValue env ASSET then True
      else if groupOrType = accountTypeValue env LIABILITY then True
      else if groupOrType = accountTypeValue env INCOMING then True
      else if groupOrType = accountTypeValue env OUTGOING then True
      else False)"

text \<open>
  The inner loop of \<open>createAccounts\<close>, over the cells of a row after the first. What
  \<open>getGroup\<close> found is not null: if it is inherited it has no \<open>getId\<close>, and the call
  is a TypeError.
\<close>

fun createAccounts_cells :: "env \<Rightarrow> string list \<Rightarrow> bkAccount \<Rightarrow> state \<Rightarrow> bkAccount outcome" where
  "createAccounts_cells env [] account s = (Inr account, s)"
| "createAccounts_cells env (cell # cells) account s =
     (if isType env cell
      then createAccounts_cells env cells (account\<lparr>acc_type := cell\<rparr>) s
      else
        (case getGroup env (Some cell) s of
           (Inl e, s') \<Rightarrow> (Inl e, s')
         | (Inr None, s') \<Rightarrow> createAccounts_cells env cells account s'
         | (Inr (Some (Own g)), s') \<Rightarrow>
             createAccounts_cells env cells
               (account\<lparr>acc_groups := acc_groups account @ [groupGetId g]\<rparr>) s'
         | (Inr (Some (Inherited _)), s') \<Rightarrow> (Inl TypeError, s')))"

text \<open>
  The outer loop of \<open>createAccounts\<close>; \<open>row[0]\<close> of an empty row is \<open>undefined\<close>.
  Whatever \<open>getAccount\<close> found, an account or an inherited member, is truthy, and the
  row is skipped.
\<close>

fun createAccounts_rows :: "env \<Rightarrow> string list list \<Rightarrow> bkAccount list \<Rightarrow> state \<Rightarrow> bkAccount list outcome" where
  "createAccounts_rows env [] accountsPayloads s = (Inr accountsPayloads, s)"
| "createAccounts_rows env (row # rows) accountsPayloads s =
     (let account = \<lparr>acc_id = None,
                     acc_name = (case row of [] \<Rightarrow> None | name # _ \<Rightarrow> Some name),
                     acc_type = accountTypeValue env ASSET,
                     acc_groups = []\<rparr>
      in case getAccount env (acc_name account) s of
           (Inl e, s') \<Rightarrow> (Inl e, s')
         | (Inr (Some _), s') \<Rightarrow> createAccounts_rows env rows accountsPayloads s'
         | (Inr None, s') \<Rightarrow>
             (case createAccounts_cells env (drop 1 row) account s' of
                (Inl e, s'') \<Rightarrow> (Inl e, s'')
              | (Inr account', s'') \<Rightarrow>
                  createAccounts_rows env rows (accountsPayloads @ [account']) s''))"

definition createAccounts :: "env \<Rightarrow> string list list \<Rightarrow> state \<Rightarrow> Account list outcome" where
  "createAccounts env rows =
     andThen (createAccounts_rows env rows []) (createAccountsPayloads env)"

definition callCreateGroups :: "env \<Rightarrow> bkGroup list \<Rightarrow> state \<Rightarrow> bkGroup list outcome" where
  "callCreateGroups env payloads =
     remoteCall (\<lambda>i. CreateGroups i payloads) (\<lambda>tr i. createGroupsService env tr i payloads)"

text \<open>
  The body shared by \<open>batchCreateGroups\<close> and \<open>createGroups\<close>, which differ in how
  they build \<open>groupsSave\<close>; \<open>GroupService_.createGroups\<close> returns the groups wrapped.
\<close>

definition createGroupsPayloads :: "env \<Rightarrow> bkGroup list \<Rightarrow> state \<Rightarrow> Group list outcome" where
  "createGroupsPayloads env groupsSave =
     andThen (callCreateGroups env groupsSave) (\<lambda>created s.
       case s of (b, tr) \<Rightarrow>
         (Inr (map (\<lambda>group. group\<lparr>group_book := Some (getId b)\<rparr>) (wrapGroups created)),
          (clearBookCache b, tr)))"

definition batchCreateGroups :: "env \<Rightarrow> Group list \<Rightarrow> state \<Rightarrow> Group list outcome" where
  "batchCreateGroups env gs =
     (if length gs > 0 then createGroupsPayloads env (map group_wrapped gs) else succeed [])"

definition createGroups :: "env \<Rightarrow> string list \<Rightarrow> state \<Rightarrow> Group list outcome" where
  "createGroups env gs =
     (if length gs > 0
      then createGroupsPayloads env (map (\<lambda>groupName. \<lparr>grp_id = None, grp_name = groupName\<rparr>) gs)
      else succeed [])"

definition callCreateAccountV2 :: "env \<Rightarrow> string \<Rightarrow> string option \<Rightarrow> string option \<Rightarrow> state \<Rightarrow> bkAccount outcome" where
  "callCreateAccountV2 env name grp description =
     remoteCall (\<lambda>i. CreateAccountV2 i name grp description)
       (\<lambda>tr i. createAccountV2 env tr i name grp description)"

definition createAccount :: "env \<Rightarrow> string \<Rightarrow> string option \<Rightarrow> string option \<Rightarrow> state \<Rightarrow> Account member option outcome" where
  "createAccount env name grp description =
     andThen (callCreateAccountV2 env name grp description) (\<lambda>_ s.
       getAccount env (Some name) (clearBookCache (fst s), snd s))"

subsection \<open>Saved queries\<close>

definition callGetSavedQueries :: "env \<Rightarrow> state \<Rightarrow> bkQuery list outcome" where
  "callGetSavedQueries env = remoteCall GetSavedQueries (getSavedQueriesService env)"

definition getSavedQueries :: "env \<Rightarrow> state \<Rightarrow> bkQuery list outcome" where
  "getSavedQueries env s =
     (case savedQueries (fst s) of
        None \<Rightarrow>
          andThen (callGetSavedQueries env) (\<lambda>qs s'.
            case s' of (b, tr) \<Rightarrow> (Inr qs, (b\<lparr>savedQueries := Some qs\<rparr>, tr))) s
      | Some qs \<Rightarrow> (Inr qs, s))"

subsection \<open>Calls of the public methods\<close>

datatype accessor =
    GetName
  | GetFractionDigits
  | GetOwnerName
  | GetPermission
  | GetCollection
  | GetDatePattern
  | GetDecimalSeparator
  | GetTimeZone
  | GetTimeZoneOffset
  | GetLastUpdateMs
  | GetProperties
  | GetProperty "string list"

datatype mutation =
    BatchCreateTransactions "Transaction list"
  | Record recordInput "string option"
  | BatchCreateAccounts "Account list"
  | CreateAccountsRows "string list list"
  | BatchCreateGroups "Group list"
  | CreateGroupsNames "string list"
  | CreateAccount string "string option" "string option"

datatype invocation =
    Accessor accessor
  | Mutation mutation
  | GetAccounts
  | GetAccount "string option"
  | GetGroups
  | GetGroup "string option"
  | GetSavedQueriesList
  | ClearAccountsCache

text \<open>
  What a call leaves behind: the state after it and whether it threw. The value that
  the call returns is dropped here.
\<close>

definition effect :: "'a outcome \<Rightarrow> error option \<times> state" where
  "effect r = (case r of (Inl e, s) \<Rightarrow> (Some e, s) | (Inr _, s) \<Rightarrow> (None, s))"

fun callAccessor :: "env \<Rightarrow> accessor \<Rightarrow> state \<Rightarrow> error option \<times> state" where
  "callAccessor env GetName s = effect (getName env s)"
| "callAccessor env GetFractionDigits s = effect (getFractionDigits env s)"
| "callAccessor env GetOwnerName s = effect (getOwnerName env s)"
| "callAccessor env GetPermission s = effect (getPermission env s)"
| "callAccessor env GetCollection s = effect (getCollection env s)"
| "callAccessor env GetDatePattern s = effect (getDatePattern env s)"
| "callAccessor env GetDecimalSeparator s = effect (getDecimalSeparator env s)"
| "callAccessor env GetTimeZone s = effect (getTimeZone env s)"
| "callAccessor env GetTimeZoneOffset s = effect (getTimeZoneOffset env s)"
| "callAccessor env GetLastUpdateMs s = effect (getLastUpdateMs env s)"
| "callAccessor env GetProperties s = effect (getProperties env s)"
| "callAccessor env (GetProperty keys) s = effect (getProperty env keys s)"

fun callMutation :: "env \<Rightarrow> mutation \<Rightarrow> state \<Rightarrow> error option \<times> state" where
  "callMutation env (BatchCreateTransactions ts) s = effect (batchCreateTransactions env ts s)"
| "callMutation env (Record input tz) s = effect (record_op env input tz s)"
| "callMutation env (BatchCreateAccounts accs) s = effect (batchCreateAccounts env accs s)"
| "callMutation env (CreateAccountsRows rows) s = effect (createAccounts env rows s)"
| "callMutation env (BatchCreateGroups gs) s = effect (batchCreateGroups env gs s)"
| "callMutation env (CreateGroupsNames gs) s = effect (createGroups env gs s)"
| "callMutation env (CreateAccount name grp description) s = effect (createAccount env name grp description s)"

fun callMethod :: "env \<Rightarrow> invocation \<Rightarrow> state \<Rightarrow> error option \<times> state" where
  "callMethod env (Accessor a) s = callAccessor env a s"
| "callMethod env (Mutation m) s = callMutation env m s"
| "callMethod env GetAccounts s = effect (getAccounts env s)"
| "callMethod env (GetAccount k) s = effect (getAccount env k s)"
| "callMethod env GetGroups s = effect (getGroups env s)"
| "callMethod env (GetGroup k) s = effect (getGroup env k s)"
| "callMethod env GetSavedQueriesList s = effect (getSavedQueries env s)"
| "callMethod env ClearAccountsCache s = (None, (clearAccountsCache (fst s), snd s))"

text \<open>
  A client's run: the methods are called one after the other; a call that throws is
  caught by the client, which goes on with the Book as the call left it.
\<close>

fun run :: "env \<Rightarrow> invocation list \<Rightarrow> state \<Rightarrow> state" where
  "run env [] s = s"
| "run env (m # ms) s = run env ms (snd (callMethod env m s))"


subsection \<open>Predicates of the development\<close>

text \<open>A step keeps a property of the state, whatever it returns.\<close>

definition preserves :: "(state \<Rightarrow> bool) \<Rightarrow> (state \<Rightarrow> 'a outcome) \<Rightarrow> bool" where
  "preserves P f = (\<forall>s. P s \<longrightarrow> P (snd (f s)))"

definition isSavedQueryFetch :: "call \<Rightarrow> bool" where
  "isSavedQueryFetch c = (case c of GetSavedQueries _ \<Rightarrow> True | _ \<Rightarrow> False)"

text \<open>
  A property is stable when the primitive steps of the Book keep it: logging a remote
  call (other than a fetch of the saved queries), the configuration after a load, the two
  cache clears, setting the collection, and \<open>getSavedQueries\<close>.
\<close>

definition stable :: "env \<Rightarrow> (state \<Rightarrow> bool) \<Rightarrow> bool" where
  "stable env P =
     ((\<forall>b tr c. P (b, tr) \<longrightarrow> \<not> isSavedQueryFetch c \<longrightarrow> P (b, tr @ [c])) \<and>
      (\<forall>b tr w. P (b, tr) \<longrightarrow>
         P (configureAccounts env (bk_accounts w)
              (configureGroups env (bk_groups w) (b\<lparr>wrapped := Some w\<rparr>)), tr)) \<and>
      (\<forall>b tr. P (b, tr) \<longrightarrow> P (clearAccountsCache b, tr)) \<and>
      (\<forall>b tr. P (b, tr) \<longrightarrow> P (clearBookCache b, tr)) \<and>
      (\<forall>b tr c. P (b, tr) \<longrightarrow> P (b\<lparr>collection := c\<rparr>, tr)) \<and>
      (\<forall>s. P s \<longrightarrow> P (snd (getSavedQueries env s))))"

text \<open>
  The shape of the collections tier in every state a client can reach: the two
  sequences and the two name maps are set together, the two id maps are set together,
  and the id maps are set only when the rest is.
\<close>

definition collectionsInv :: "Book \<Rightarrow> bool" where
  "collectionsInv b =
     (((accounts b = None) = (groups b = None)) \<and>
      ((groups b = None) = (nameAccountMap b = None)) \<and>
      ((nameAccountMap b = None) = (nameGroupMap b = None)) \<and>
      ((idAccountMap b = None) = (idGroupMap b = None)) \<and>
      (idAccountMap b = None \<or> accounts b \<noteq> None))"

definition savedQueryFetches :: "call list \<Rightarrow> nat" where
  "savedQueryFetches tr = length (filter isSavedQueryFetch tr)"

text \<open>\<open>j\<close> is the last position of \<open>xs\<close> whose key is \<open>k\<close>.\<close>

definition lastWithKey :: "('a \<Rightarrow> string) \<Rightarrow> 'a list \<Rightarrow> nat \<Rightarrow> string \<Rightarrow> bool" where
  "lastWithKey key xs j k =
     (j < length xs \<and> key (xs ! j) = k \<and> list_all (\<lambda>x. key x \<noteq> k) (drop (Suc j) xs))"

text \<open>
  The test of \<open>record\<close> on its time zone: \<open>timeZone == null || timeZone.trim() == ""\<close>.
\<close>

definition blankTimeZone :: "env \<Rightarrow> string option \<Rightarrow> bool" where
  "blankTimeZone env tz = (case tz of None \<Rightarrow> True | Some z \<Rightarrow> trim env z = [])"

text \<open>A step that returns leaves the state as it was or as a load has made it.\<close>

definition sameOrLoaded :: "env \<Rightarrow> state \<Rightarrow> state \<Rightarrow> bool" where
  "sameOrLoaded env s s1 = (s1 = s \<or> loadBook env s = (Inr (), s1))"

subsection \<open>A sample ledger and sample services\<close>

definition exampleGroup :: bkGroup where
  "exampleGroup = \<lparr>grp_id = Some ''g1'', grp_name = ''Assets''\<rparr>"

definition exampleCash :: bkAccount where
  "exampleCash =
     \<lparr>acc_id = Some ''a1'', acc_name = Some ''Cash'', acc_type = ''ASSET'', acc_groups = [Some ''g1'']\<rparr>"

definition exampleCashLower :: bkAccount where
  "exampleCashLower =
     \<lparr>acc_id = Some ''a2'', acc_name = Some ''cash'', acc_type = ''ASSET'', acc_groups = []\<rparr>"

definition exampleBook :: bkBook where
  "exampleBook =
     \<lparr>bk_name = ''Ledger'', bk_fractionDigits = 2, bk_ownerName = ''owner'',
      bk_permission = ''OWNER'', bk_collection = None, bk_datePattern = ''dd/MM/yyyy'',
      bk_decimalSeparator = ''DOT'', bk_timeZone = ''UTC'', bk_timeZoneOffset = 0,
      bk_lastUpdateMs = ''0'', bk_properties = None, bk_groups = [exampleGroup],
      bk_accounts = [exampleCash, exampleCashLower]\<rparr>"

definition exampleLower :: "char \<Rightarrow> char" where
  "exampleLower c =
     (case map_of (zip ''ABCDEFGHIJKLMNOPQRSTUVWXYZ'' ''abcdefghijklmnopqrstuvwxyz'') c of
        None \<Rightarrow> c
      | Some d \<Rightarrow> d)"

text \<open>
  A \<open>trim\<close> for the sample: it strips the white space and line terminators of
  JavaScript among the characters below 256.
\<close>

definition exampleWhiteSpace :: "char \<Rightarrow> bool" where
  "exampleWhiteSpace c =
     (c = CHR 0x09 \<or> c = CHR 0x0A \<or> c = CHR 0x0B \<or> c = CHR 0x0C \<or> c = CHR 0x0D \<or>
      c = CHR 0x20 \<or> c = CHR 0xA0)"

definition exampleTrim :: "string \<Rightarrow> string" where
  "exampleTrim s = rev (dropWhile exampleWhiteSpace (rev (dropWhile exampleWhiteSpace s)))"

text \<open>The names of the properties of \<open>Object.prototype\<close>, for the sample.\<close>

definition exampleObjectPrototype :: "string list" where
  "exampleObjectPrototype =
     [''constructor'', ''toString'', ''toLocaleString'', ''valueOf'', ''hasOwnProperty'',
      ''isPrototypeOf'', ''propertyIsEnumerable'', ''__proto__'', ''__defineGetter__'',
      ''__defineSetter__'', ''__lookupGetter__'', ''__lookupSetter__'']"

definition exampleTypeValue :: "AccountType \<Rightarrow> string" where
  "exampleTypeValue t =
     (case t of ASSET \<Rightarrow> ''ASSET'' | LIABILITY \<Rightarrow> ''LIABILITY''
      | INCOMING \<Rightarrow> ''INCOMING'' | OUTGOING \<Rightarrow> ''OUTGOING'')"

text \<open>Services that answer every call: the ledger above, and an echo of what is created.\<close>

definition exampleEnv :: env where
  "exampleEnv =
     \<lparr>trim = exampleTrim,
      objectPrototype = (\<lambda>k. k \<in> set exampleObjectPrototype),
      normalizeName = map exampleLower,
      accountNormalizedName = (\<lambda>a. case acc_name a of None \<Rightarrow> [] | Some n \<Rightarrow> map exampleLower n),
      accountTypeValue = exampleTypeValue,
      toNumber = (\<lambda>_. 0),
      loadBookWrapped = (\<lambda>_ _. Inr exampleBook),
      createTransactionsBatch = (\<lambda>_ _ payloads. Inr payloads),
      recordTransactions = (\<lambda>_ _ _ _. Inr ()),
      createAccountsService = (\<lambda>_ _ payloads. Inr payloads),
      createAccountV2 = (\<lambda>_ _ name _ _.
        Inr \<lparr>acc_id = None, acc_name = Some name, acc_type = ''ASSET'', acc_groups = []\<rparr>),
      createGroupsService = (\<lambda>_ _ payloads. Inr payloads),
      getSavedQueriesService = (\<lambda>_ _.
        Inr [\<lparr>qry_id = ''q1'', qry_query = ''account:Cash'', qry_title = ''Cash''\<rparr>])\<rparr>"

text \<open>Services whose loads answer and whose mutations fail.\<close>

definition failingEnv :: env where
  "failingEnv =
     exampleEnv
       \<lparr>createTransactionsBatch := (\<lambda>_ _ _. Inl (ServiceError ''unavailable'')),
        recordTransactions := (\<lambda>_ _ _ _. Inl (ServiceError ''unavailable'')),
        createAccountsService := (\<lambda>_ _ _. Inl (ServiceError ''unavailable'')),
        createGroupsService := (\<lambda>_ _ _. Inl (ServiceError ''unavailable''))\<rparr>"

definition exampleTransaction :: Transaction where
  "exampleTransaction =
     \<lparr>transaction_wrapped = \<lparr>tx_id = None, tx_description = ''#gas 63.23''\<rparr>,
      transaction_book = None\<rparr>"

definition exampleAccount :: Account where
  "exampleAccount =
     \<lparr>account_wrapped =
        \<lparr>acc_id = None, acc_name = Some ''Bank'', acc_type = ''ASSET'', acc_groups = []\<rparr>,
      account_book = None\<rparr>"

text \<open>The Book after \<open>new Book(''b1'')\<close> and a first \<open>getAccounts()\<close>.\<close>

definition loadedState :: state where
  "loadedState = run exampleEnv [GetAccounts] (newBook ''b1'' None, [])"

section \<open>Basic facts\<close>

subsection \<open>Loading, step by step\<close>

lemma getId_configureGroups [simp]: "getId (configureGroups env gs b) = getId b"
  by (simp add: configureGroups_def getId_def split: prod.splits)

lemma getId_configureAccounts [simp]: "getId (configureAccounts env xs b) = getId b"
  by (simp add: configureAccounts_def getId_def split: prod.splits)

lemma andThen_Inl: "m s = (Inl e, s') \<Longrightarrow> andThen m f s = (Inl e, s')"
  by (simp add: andThen_def)

lemma andThen_Inr: "m s = (Inr x, s') \<Longrightarrow> andThen m f s = f x s'"
  by (simp add: andThen_def)

lemma loadBook_eq:
  "loadBook env (b, tr) =
     (case loadBookWrapped env tr (getId b) of
        Inl e \<Rightarrow> (Inl e, (b, tr @ [LoadBookWrapped (getId b)]))
      | Inr w \<Rightarrow>
          (Inr (),
           (configureAccounts env (bk_accounts w)
              (configureGroups env (bk_groups w) (b\<lparr>wrapped := Some w\<rparr>)),
            tr @ [LoadBookWrapped (getId b)])))"
  by (simp add: loadBook_def andThen_def callLoadBookWrapped_def remoteCall_def split: sum.splits)

subsection \<open>Stable properties hold after every call\<close>

text \<open>
  A small calculus for properties that every step keeps: sequencing keeps what both
  steps keep, and so every method keeps a stable property, through its loops too.
\<close>

lemma preservesI: "(\<And>s. P s \<Longrightarrow> P (snd (f s))) \<Longrightarrow> preserves P f"
  unfolding preserves_def by blast

lemma preservesD: "preserves P f \<Longrightarrow> P s \<Longrightarrow> P (snd (f s))"
  unfolding preserves_def by blast

lemma stable_call: "stable env P \<Longrightarrow> P (b, tr) \<Longrightarrow> \<not> isSavedQueryFetch c \<Longrightarrow> P (b, tr @ [c])"
  by (simp add: stable_def)

lemma stable_configure:
  "stable env P \<Longrightarrow> P (b, tr) \<Longrightarrow>
     P (configureAccounts env (bk_accounts w)
          (configureGroups env (bk_groups w) (b\<lparr>wrapped := Some w\<rparr>)), tr)"
  by (simp add: stable_def)

lemma stable_clearAccountsCache: "stable env P \<Longrightarrow> P (b, tr) \<Longrightarrow> P (clearAccountsCache b, tr)"
  by (simp add: stable_def)

lemma stable_clearBookCache: "stable env P \<Longrightarrow> P (b, tr) \<Longrightarrow> P (clearBookCache b, tr)"
  by (simp add: stable_def)

lemma stable_collection: "stable env P \<Longrightarrow> P (b, tr) \<Longrightarrow> P (b\<lparr>collection := c\<rparr>, tr)"
  by (simp add: stable_def)

lemma stable_getSavedQueries: "stable env P \<Longrightarrow> P s \<Longrightarrow> P (snd (getSavedQueries env s))"
  by (cases s) (simp add: stable_def)

lemma preserves_andThen:
  assumes "preserves P m" and "\<And>x. preserves P (f x)"
  shows "preserves P (andThen m f)"
proof (rule preservesI)
  fix s assume P: "P s"
  obtain r s' where ms: "m s = (r, s')" by (cases "m s")
  from assms(1) P ms have P': "P s'" by (auto dest: preservesD)
  show "P (snd (andThen m f s))"
  proof (cases r)
    case (Inl e)
    with ms P' show ?thesis by (simp add: andThen_def)
  next
    case (Inr x)
    with ms have "andThen m f s = f x s'" by (simp add: andThen_def)
    with assms(2)[of x] P' show ?thesis by (auto dest: preservesD)
  qed
qed

lemma preserves_succeed: "preserves P (succeed x)"
  by (rule preservesI) (simp add: succeed_def)

lemma preserves_readWrapped: "preserves P (readWrapped f)"
  by (rule preservesI) (simp add: readWrapped_def split: option.splits)

lemma preserves_remoteCall:
  assumes "stable env P" and "\<And>i. \<not> isSavedQueryFetch (c i)"
  shows "preserves P (remoteCall c answer)"
proof (rule preservesI)
  fix s :: state assume P: "P s"
  obtain b tr where s: "s = (b, tr)" by (cases s)
  from stable_call[OF assms(1) P[unfolded s] assms(2)] s
  show "P (snd (remoteCall c answer s))" by (simp add: remoteCall_def)
qed

lemma preserves_loadBook:
  assumes "stable env P"
  shows "preserves P (loadBook env)"
proof (rule preservesI)
  fix s :: state assume P: "P s"
  obtain b tr where s: "s = (b, tr)" by (cases s)
  have c: "\<not> isSavedQueryFetch (LoadBookWrapped (getId b))" by (simp add: isSavedQueryFetch_def)
  from stable_call[OF assms P[unfolded s] c] have P1: "P (b, tr @ [LoadBookWrapped (getId b)])" .
  show "P (snd (loadBook env s))"
  proof (cases "loadBookWrapped env tr (getId b)")
    case (Inl e)
    with P1 s show ?thesis by (simp add: loadBook_eq)
  next
    case (Inr w)
    from stable_configure[OF assms P1, of w] Inr s show ?thesis by (simp add: loadBook_eq)
  qed
qed

lemma preserves_checkBookLoaded:
  assumes "stable env P" shows "preserves P (checkBookLoaded env)"
proof (rule preservesI)
  fix s :: state assume "P s"
  with preservesD[OF preserves_loadBook[OF assms], of s]
  show "P (snd (checkBookLoaded env s))" by (simp add: checkBookLoaded_def)
qed

lemma preserves_checkAccountsLoaded:
  assumes "stable env P" shows "preserves P (checkAccountsLoaded env)"
proof (rule preservesI)
  fix s :: state assume "P s"
  with preservesD[OF preserves_loadBook[OF assms], of s]
  show "P (snd (checkAccountsLoaded env s))" by (simp add: checkAccountsLoaded_def)
qed

lemma preserves_meta:
  "stable env P \<Longrightarrow> preserves P (andThen (checkBookLoaded env) (\<lambda>_. readWrapped f))"
  by (rule preserves_andThen) (simp_all add: preserves_checkBookLoaded preserves_readWrapped)

lemma preserves_getCollection:
  assumes "stable env P" shows "preserves P (getCollection env)"
  unfolding getCollection_def
proof (intro preserves_andThen preserves_checkAccountsLoaded assms, rule preservesI)
  fix x :: unit and s :: state assume P: "P s"
  obtain b tr where s: "s = (b, tr)" by (cases s)
  from stable_collection[OF assms P[unfolded s]] P s
  show "P (snd (case s of (b, tr) \<Rightarrow>
         (case wrapped b of
            None \<Rightarrow> (Inl TypeError, s)
          | Some w \<Rightarrow>
              (case bk_collection w of
                 None \<Rightarrow> (Inr (collection b), s)
               | Some c \<Rightarrow>
                   if collection b = None
                   then (Inr (Some \<lparr>collection_wrapped = c\<rparr>),
                         (b\<lparr>collection := Some \<lparr>collection_wrapped = c\<rparr>\<rparr>, tr))
                   else (Inr (collection b), s)))))"
    by (simp split: option.splits)
qed

lemma snd_effect: "snd (effect r) = snd r"
  by (cases r) (simp add: effect_def split: sum.splits)

lemma effect_preserves: "preserves P f \<Longrightarrow> P s \<Longrightarrow> P (snd (effect (f s)))"
  using preservesD[of P f s] by (simp add: snd_effect)

lemmas accessor_defs = getName_def getFractionDigits_def getOwnerName_def getPermission_def
       getDatePattern_def getDecimalSeparator_def getTimeZone_def getTimeZoneOffset_def
       getLastUpdateMs_def getProperties_def

lemma preserves_getProperty:
  assumes "stable env P" shows "preserves P (getProperty env keys)"
  unfolding getProperty_def
  by (rule preserves_andThen)
     (simp_all add: preserves_checkBookLoaded assms preservesI split: option.splits)

lemma callAccessor_stable:
  assumes "stable env P" and "P s"
  shows "P (snd (callAccessor env a s))"
proof (cases a)
  case GetCollection
  with effect_preserves[OF preserves_getCollection[OF assms(1)] assms(2)] show ?thesis by simp
next
  case (GetProperty keys)
  with effect_preserves[OF preserves_getProperty[OF assms(1)] assms(2)] show ?thesis by simp
qed (simp_all only: callAccessor.simps accessor_defs
       effect_preserves[OF preserves_meta[OF assms(1)] assms(2)])

lemma preserves_getAccounts: "stable env P \<Longrightarrow> preserves P (getAccounts env)"
  unfolding getAccounts_def
  by (rule preserves_andThen) (simp_all add: preserves_checkAccountsLoaded preservesI)

lemma preserves_getGroups: "stable env P \<Longrightarrow> preserves P (getGroups env)"
  unfolding getGroups_def
  by (rule preserves_andThen) (simp_all add: preserves_checkAccountsLoaded preservesI)

lemma preserves_getAccount: 
  assumes "stable env P" shows "preserves P (getAccount env k)"
proof (cases k)
  case None
  then show ?thesis by (simp add: preserves_def getAccount_def)
next
  case (Some key)
  have "preserves P (andThen (checkAccountsLoaded env) (\<lambda>_ s'.
            case idAccountMap (fst s') of
              None \<Rightarrow> (Inl TypeError, s')
            | Some idm \<Rightarrow>
                (case readProperty env idm key of
                   Some account \<Rightarrow> (Inr (Some account), s')
                 | None \<Rightarrow>
                     (case nameAccountMap (fst s') of
                        None \<Rightarrow> (Inl TypeError, s')
                      | Some nm \<Rightarrow> (Inr (readProperty env nm (normalizeName env key)), s')))))"
    by (rule preserves_andThen)
       (simp_all add: preserves_checkAccountsLoaded assms preservesI split: option.splits)
  then show ?thesis using Some unfolding preserves_def getAccount_def by simp
qed

lemma preserves_getGroup: 
  assumes "stable env P" shows "preserves P (getGroup env k)"
proof (cases k)
  case None
  then show ?thesis by (simp add: preserves_def getGroup_def)
next
  case (Some key)
  have "preserves P (andThen (checkAccountsLoaded env) (\<lambda>_ s'.
            case idGroupMap (fst s') of
              None \<Rightarrow> (Inl TypeError, s')
            | Some idm \<Rightarrow>
                (case readProperty env idm key of
                   Some g \<Rightarrow> (Inr (Some g), s')
                 | None \<Rightarrow>
                     (case nameGroupMap (fst s') of
                        None \<Rightarrow> (Inl TypeError, s')
                      | Some nm \<Rightarrow> (Inr (readProperty env nm (normalizeName env key)), s')))))"
    by (rule preserves_andThen)
       (simp_all add: preserves_checkAccountsLoaded assms preservesI split: option.splits)
  then show ?thesis using Some unfolding preserves_def getGroup_def by simp
qed

lemma preserves_batchCreateTransactions:
  assumes "stable env P" shows "preserves P (batchCreateTransactions env ts)"
  unfolding batchCreateTransactions_def callCreateTransactionsBatch_def
  apply (rule preserves_andThen)
   apply (rule preserves_remoteCall[OF assms])
   apply (simp add: isSavedQueryFetch_def)
  apply (rule preservesI)
  apply (simp add: split_paired_all stable_clearAccountsCache[OF assms])
  done

lemma preserves_record:
  assumes "stable env P" shows "preserves P (record_op env input tz)"
  unfolding record_op_def callRecord_def
  apply (rule preserves_andThen)
   apply (simp add: preserves_succeed preserves_meta[OF assms] getTimeZone_def split: option.splits)
  apply (rule preserves_andThen)
   apply (rule preserves_remoteCall[OF assms])
   apply (simp add: isSavedQueryFetch_def)
  apply (rule preservesI)
  apply (simp add: split_paired_all stable_clearAccountsCache[OF assms])
  done

lemma preserves_createAccountsPayloads:
  assumes "stable env P" shows "preserves P (createAccountsPayloads env ps)"
  unfolding createAccountsPayloads_def callCreateAccounts_def
  apply (simp add: preserves_succeed)
  apply (rule impI)
  apply (rule preserves_andThen)
   apply (rule preserves_remoteCall[OF assms])
   apply (simp add: isSavedQueryFetch_def)
  apply (rule preservesI)
  apply (simp add: split_paired_all stable_clearBookCache[OF assms])
  done

lemma preserves_createGroupsPayloads:
  assumes "stable env P" shows "preserves P (createGroupsPayloads env ps)"
  unfolding createGroupsPayloads_def callCreateGroups_def
  apply (rule preserves_andThen)
   apply (rule preserves_remoteCall[OF assms])
   apply (simp add: isSavedQueryFetch_def)
  apply (rule preservesI)
  apply (simp add: split_paired_all stable_clearBookCache[OF assms])
  done

lemma createAccounts_cells_stable:
  assumes "stable env P"
  shows "P s \<Longrightarrow> P (snd (createAccounts_cells env cells account s))"
proof (induction cells arbitrary: account s)
  case Nil
  then show ?case by simp
next
  case (Cons cell cells)
  obtain r s' where g: "getGroup env (Some cell) s = (r, s')" by (cases "getGroup env (Some cell) s")
  from preservesD[OF preserves_getGroup[OF assms] Cons.prems, of "Some cell"] g have "P s'" by simp
  with Cons.IH Cons.prems g show ?case
    by (simp split: sum.splits option.splits member.splits)
qed

lemma createAccounts_rows_stable:
  assumes "stable env P"
  shows "P s \<Longrightarrow> P (snd (createAccounts_rows env rows ps s))"
proof (induction rows arbitrary: ps s)
  case Nil
  then show ?case by simp
next
  case (Cons row rows)
  let ?name = "case row of [] \<Rightarrow> None | name # _ \<Rightarrow> Some name"
  obtain r s' where g: "getAccount env ?name s = (r, s')" by (cases "getAccount env ?name s")
  from preservesD[OF preserves_getAccount[OF assms] Cons.prems, of ?name] g have P': "P s'" by simp
  show ?case
  proof (cases r)
    case (Inl e)
    with g P' show ?thesis by (simp add: Let_def)
  next
    case (Inr found)
    show ?thesis
    proof (cases found)
      case (Some a)
      with Inr g P' Cons.IH show ?thesis by (simp add: Let_def)
    next
      case None
      let ?acct = "\<lparr>acc_id = None, acc_name = ?name, acc_type = accountTypeValue env ASSET, acc_groups = []\<rparr>"
      obtain r2 s2 where c: "createAccounts_cells env (drop 1 row) ?acct s' = (r2, s2)"
        by (cases "createAccounts_cells env (drop 1 row) ?acct s'")
      from createAccounts_cells_stable[OF assms P', of "drop 1 row" ?acct] c have "P s2" by simp
      with None Inr g c Cons.IH show ?thesis by (simp add: Let_def split: sum.splits)
    qed
  qed
qed

lemma preserves_createAccounts:
  assumes "stable env P" shows "preserves P (createAccounts env rows)"
  unfolding createAccounts_def
  by (rule preserves_andThen)
     (simp_all add: preservesI createAccounts_rows_stable[OF assms] preserves_createAccountsPayloads[OF assms])

lemma preserves_createAccount:
  assumes "stable env P" shows "preserves P (createAccount env name grp d)"
  unfolding createAccount_def callCreateAccountV2_def
  apply (rule preserves_andThen)
   apply (rule preserves_remoteCall[OF assms])
   apply (simp add: isSavedQueryFetch_def)
  apply (rule preservesI)
  apply (simp add: split_paired_all)
  apply (rule preservesD[OF preserves_getAccount[OF assms]])
  apply (erule stable_clearBookCache[OF assms])
  done

lemma callMutation_stable:
  assumes "stable env P" and "P s"
  shows "P (snd (callMutation env m s))"
proof (cases m)
  case (BatchCreateTransactions ts)
  with effect_preserves[OF preserves_batchCreateTransactions[OF assms(1)] assms(2)] show ?thesis by simp
next
  case (Record input tz)
  with effect_preserves[OF preserves_record[OF assms(1)] assms(2)] show ?thesis by simp
next
  case (BatchCreateAccounts accs)
  with effect_preserves[OF preserves_createAccountsPayloads[OF assms(1)] assms(2)] 
  show ?thesis by (simp add: batchCreateAccounts_def)
next
  case (CreateAccountsRows rows)
  with effect_preserves[OF preserves_createAccounts[OF assms(1)] assms(2)] show ?thesis by simp
next
  case (BatchCreateGroups gs)
  with effect_preserves[OF preserves_createGroupsPayloads[OF assms(1)] assms(2)] assms(2)
  show ?thesis by (simp add: batchCreateGroups_def succeed_def effect_def)
next
  case (CreateGroupsNames gs)
  with effect_preserves[OF preserves_createGroupsPayloads[OF assms(1)] assms(2)] assms(2)
  show ?thesis by (simp add: createGroups_def succeed_def effect_def)
next
  case (CreateAccount name grp d)
  with effect_preserves[OF preserves_createAccount[OF assms(1)] assms(2)] show ?thesis by simp
qed

lemma callMethod_stable:
  assumes "stable env P" and "P s"
  shows "P (snd (callMethod env m s))"
proof (cases m)
  case (Accessor a)
  with callAccessor_stable[OF assms] show ?thesis by simp
next
  case (Mutation mu)
  with callMutation_stable[OF assms] show ?thesis by simp
next
  case GetAccounts
  with effect_preserves[OF preserves_getAccounts[OF assms(1)] assms(2)] show ?thesis by simp
next
  case (GetAccount k)
  with effect_preserves[OF preserves_getAccount[OF assms(1)] assms(2)] show ?thesis by simp
next
  case GetGroups
  with effect_preserves[OF preserves_getGroups[OF assms(1)] assms(2)] show ?thesis by simp
next
  case (GetGroup k)
  with effect_preserves[OF preserves_getGroup[OF assms(1)] assms(2)] show ?thesis by simp
next
  case GetSavedQueriesList
  with stable_getSavedQueries[OF assms] show ?thesis by (simp add: snd_effect)
next
  case ClearAccountsCache
  with stable_clearAccountsCache[OF assms(1), of "fst s" "snd s"] assms(2) show ?thesis by simp
qed

lemma run_stable:
  assumes "stable env P"
  shows "P s \<Longrightarrow> P (run env ms s)"
  by (induction ms arbitrary: s) (simp_all add: callMethod_stable[OF assms])

subsection \<open>The collections invariant\<close>

lemma configureGroups_eq:
  "configureGroups env gs b =
     b\<lparr>groups := Some (fst (foldl (configureGroup_step env (getId b)) ([], Map.empty, Map.empty) (wrapGroups gs))),
       idGroupMap := Some (fst (snd (foldl (configureGroup_step env (getId b)) ([], Map.empty, Map.empty) (wrapGroups gs)))),
       nameGroupMap := Some (snd (snd (foldl (configureGroup_step env (getId b)) ([], Map.empty, Map.empty) (wrapGroups gs))))\<rparr>"
  by (simp add: configureGroups_def split: prod.splits)

lemma configureAccounts_eq:
  "configureAccounts env xs b =
     b\<lparr>accounts := Some (fst (foldl (configureAccount_step env (getId b)) ([], Map.empty, Map.empty) (wrapAccounts xs))),
       idAccountMap := Some (fst (snd (foldl (configureAccount_step env (getId b)) ([], Map.empty, Map.empty) (wrapAccounts xs)))),
       nameAccountMap := Some (snd (snd (foldl (configureAccount_step env (getId b)) ([], Map.empty, Map.empty) (wrapAccounts xs))))\<rparr>"
  by (simp add: configureAccounts_def split: prod.splits)

lemma configured_fields:
  "wrapped (configureAccounts env xs (configureGroups env gs b)) = wrapped b"
  "collection (configureAccounts env xs (configureGroups env gs b)) = collection b"
  "savedQueries (configureAccounts env xs (configureGroups env gs b)) = savedQueries b"
  "book_id (configureAccounts env xs (configureGroups env gs b)) = book_id b"
  "accounts (configureAccounts env xs (configureGroups env gs b)) \<noteq> None"
  "groups (configureAccounts env xs (configureGroups env gs b)) \<noteq> None"
  "idAccountMap (configureAccounts env xs (configureGroups env gs b)) \<noteq> None"
  "nameAccountMap (configureAccounts env xs (configureGroups env gs b)) \<noteq> None"
  "idGroupMap (configureAccounts env xs (configureGroups env gs b)) \<noteq> None"
  "nameGroupMap (configureAccounts env xs (configureGroups env gs b)) \<noteq> None"
  by (simp_all add: configureAccounts_eq configureGroups_eq)

lemma stable_collectionsInv: "stable env (\<lambda>s. collectionsInv (fst s))"
  unfolding stable_def
proof (intro conjI allI impI)
  fix s :: state assume "collectionsInv (fst s)"
  then show "collectionsInv (fst (snd (getSavedQueries env s)))"
    by (cases s)
       (auto simp: getSavedQueries_def andThen_def callGetSavedQueries_def remoteCall_def
          collectionsInv_def split: option.splits sum.splits)
qed (auto simp add: collectionsInv_def configured_fields clearAccountsCache_def clearBookCache_def)

lemma collectionsInv_newBook: "collectionsInv (newBook i w)"
  by (simp add: collectionsInv_def newBook_def)

lemma reachable_collectionsInv: "collectionsInv (fst (run env ms (newBook i w, tr)))"
  using run_stable[OF stable_collectionsInv, of "(newBook i w, tr)" env ms]
  by (simp add: collectionsInv_newBook)

lemma loadBook_populates:
  assumes "loadBook env (b, tr) = (Inr u, (b', tr'))"
  shows "wrapped b' \<noteq> None \<and> accounts b' \<noteq> None \<and> groups b' \<noteq> None \<and> idAccountMap b' \<noteq> None \<and>
         nameAccountMap b' \<noteq> None \<and> idGroupMap b' \<noteq> None \<and> nameGroupMap b' \<noteq> None \<and>
         tr' = tr @ [LoadBookWrapped (getId b)]"
proof (cases "loadBookWrapped env tr (getId b)")
  case (Inl e)
  with assms show ?thesis by (simp add: loadBook_eq)
next
  case (Inr x)
  with assms have "b' = configureAccounts env (bk_accounts x)
            (configureGroups env (bk_groups x) (b\<lparr>wrapped := Some x\<rparr>))"
    and "tr' = tr @ [LoadBookWrapped (getId b)]"
    by (simp_all add: loadBook_eq)
  then show ?thesis by (simp add: configured_fields)
qed

subsection \<open>The index maps a load builds\<close>

text \<open>
  The loop of \<open>configureAccounts_\<close> (and of \<open>configureGroups_\<close>) stores the entities
  in list order, a later one over an earlier one: each index is the map of the reversed
  list of pairs.
\<close>

lemma map_of_rev_last:
  assumes "j < length xs" "key (xs ! j) = k" "list_all (\<lambda>x. key x \<noteq> k) (drop (Suc j) xs)"
  shows "map_of (rev (map (\<lambda>x. (key x, val x)) xs)) k = Some (val (xs ! j))"
  using assms
proof (induction xs arbitrary: j rule: rev_induct)
  case Nil
  then show ?case by simp
next
  case (snoc y ys)
  show ?case
  proof (cases "j = length ys")
    case True
    with snoc.prems show ?thesis by simp
  next
    case False
    with snoc.prems have j: "j < length ys" by simp
    with snoc.prems have "key y \<noteq> k" and "list_all (\<lambda>x. key x \<noteq> k) (drop (Suc j) ys)"
      by simp_all
    with snoc.IH[OF j] snoc.prems j show ?thesis by (simp add: nth_append)
  qed
qed

lemma map_upd_add_map_of: "m(k \<mapsto> v) ++ map_of ps = m ++ map_of (ps @ [(k, v)])"
proof -
  have "m ++ map_of (ps @ [(k, v)]) = m ++ ([k \<mapsto> v] ++ map_of ps)" by simp
  also have "\<dots> = (m ++ [k \<mapsto> v]) ++ map_of ps" by (simp only: map_add_assoc)
  also have "m ++ [k \<mapsto> v] = m(k \<mapsto> v)" by simp
  finally show ?thesis by simp
qed

lemma configureGroup_step_eq:
  "configureGroup_step env bid (seen, idm, nm) g =
     (seen @ [g\<lparr>group_book := Some bid\<rparr>],
      idm(jsKey (groupGetId g) \<mapsto> g\<lparr>group_book := Some bid\<rparr>),
      nm(normalizeName env (groupGetName g) \<mapsto> g\<lparr>group_book := Some bid\<rparr>))"
  by (simp add: configureGroup_step_def Let_def groupGetId_def groupGetName_def)

lemma configureAccount_step_eq:
  "configureAccount_step env bid (seen, idm, nm) a =
     (seen @ [a\<lparr>account_book := Some bid\<rparr>],
      idm(jsKey (accountGetId a) \<mapsto> a\<lparr>account_book := Some bid\<rparr>),
      nm(accountGetNormalizedName env a \<mapsto> a\<lparr>account_book := Some bid\<rparr>))"
  by (simp add: configureAccount_step_def Let_def accountGetId_def accountGetNormalizedName_def)

lemma foldl_configureGroup_step:
  "foldl (configureGroup_step env bid) (seen, idm, nm) gs =
     (seen @ map (\<lambda>g. g\<lparr>group_book := Some bid\<rparr>) gs,
      idm ++ map_of (rev (map (\<lambda>g. (jsKey (groupGetId g), g\<lparr>group_book := Some bid\<rparr>)) gs)),
      nm ++ map_of (rev (map (\<lambda>g. (normalizeName env (groupGetName g), g\<lparr>group_book := Some bid\<rparr>)) gs)))"
proof (induction gs arbitrary: seen idm nm)
  case Nil
  then show ?case by simp
next
  case (Cons g gs)
  show ?case
    by (simp only: foldl_Cons configureGroup_step_eq Cons.IH map_upd_add_map_of
          list.map rev.simps append_assoc append.simps)
qed

lemma foldl_configureAccount_step:
  "foldl (configureAccount_step env bid) (seen, idm, nm) xs =
     (seen @ map (\<lambda>a. a\<lparr>account_book := Some bid\<rparr>) xs,
      idm ++ map_of (rev (map (\<lambda>a. (jsKey (accountGetId a), a\<lparr>account_book := Some bid\<rparr>)) xs)),
      nm ++ map_of (rev (map (\<lambda>a. (accountGetNormalizedName env a, a\<lparr>account_book := Some bid\<rparr>)) xs)))"
proof (induction xs arbitrary: seen idm nm)
  case Nil
  then show ?case by simp
next
  case (Cons x xs)
  show ?case
    by (simp only: foldl_Cons configureAccount_step_eq Cons.IH map_upd_add_map_of
          list.map rev.simps append_assoc append.simps)
qed

subsection \<open>The methods as equations\<close>

lemmas load_unfold = checkAccountsLoaded_def checkBookLoaded_def loadBook_eq
  configureAccounts_def configureGroups_def configureAccount_step_def configureGroup_step_def
  wrapAccounts_def wrapGroups_def getId_def newBook_def exampleEnv_def exampleBook_def

lemma loadedState_fields:
  "wrapped (fst loadedState) = Some exampleBook"
  "accounts (fst loadedState) \<noteq> None"
  "groups (fst loadedState) \<noteq> None"
  "idAccountMap (fst loadedState) \<noteq> None"
  "nameAccountMap (fst loadedState) \<noteq> None"
  "idGroupMap (fst loadedState) \<noteq> None"
  "nameGroupMap (fst loadedState) \<noteq> None"
  "book_id (fst loadedState) = ''b1''"
  "snd loadedState = [LoadBookWrapped ''b1'']"
  by (simp_all add: loadedState_def getAccounts_def andThen_def effect_def load_unfold Let_def)

lemma batchCreateTransactions_eq:
  "batchCreateTransactions env txs (b, tr) =
     (case createTransactionsBatch env tr (getId b) (map transaction_wrapped txs) of
        Inl e \<Rightarrow> (Inl e, (b, tr @ [CreateTransactionsBatch (getId b) (map transaction_wrapped txs)]))
      | Inr payloads \<Rightarrow>
          (Inr (configureTransactions b (wrapTransactions payloads)),
           (clearAccountsCache b, tr @ [CreateTransactionsBatch (getId b) (map transaction_wrapped txs)])))"
  by (simp add: batchCreateTransactions_def andThen_def callCreateTransactionsBatch_def
        remoteCall_def split: sum.splits)

lemma createAccountsPayloads_eq:
  "createAccountsPayloads env ps (b, tr) =
     (if ps = [] then (Inr [], (b, tr))
      else case createAccountsService env tr (getId b) ps of
             Inl e \<Rightarrow> (Inl e, (b, tr @ [CreateAccounts (getId b) ps]))
           | Inr created \<Rightarrow>
               (Inr (map (\<lambda>account. account\<lparr>account_book := Some (getId b)\<rparr>) (wrapAccounts created)),
                (clearBookCache b, tr @ [CreateAccounts (getId b) ps])))"
  by (simp add: createAccountsPayloads_def andThen_def callCreateAccounts_def remoteCall_def
        succeed_def split: sum.splits)

lemma createGroupsPayloads_eq:
  "createGroupsPayloads env ps (b, tr) =
     (case createGroupsService env tr (getId b) ps of
        Inl e \<Rightarrow> (Inl e, (b, tr @ [CreateGroups (getId b) ps]))
      | Inr created \<Rightarrow>
          (Inr (map (\<lambda>group. group\<lparr>group_book := Some (getId b)\<rparr>) (wrapGroups created)),
           (clearBookCache b, tr @ [CreateGroups (getId b) ps])))"
  by (simp add: createGroupsPayloads_def andThen_def callCreateGroups_def remoteCall_def
        split: sum.splits)

lemma batchCreateGroups_eq:
  "batchCreateGroups env gs (b, tr) =
     (if gs = [] then (Inr [], (b, tr)) else createGroupsPayloads env (map group_wrapped gs) (b, tr))"
  by (simp add: batchCreateGroups_def succeed_def)

lemma createGroups_eq:
  "createGroups env gs (b, tr) =
     (if gs = [] then (Inr [], (b, tr))
      else createGroupsPayloads env (map (\<lambda>groupName. \<lparr>grp_id = None, grp_name = groupName\<rparr>) gs) (b, tr))"
  by (simp add: createGroups_def succeed_def)

lemma record_given_eq:
  assumes "tz = Some z" "trim env z \<noteq> []"
  shows "record_op env input tz (b, tr) =
     (case recordTransactions env tr (getId b) input z of
        Inl e \<Rightarrow> (Inl e, (b, tr @ [RecordTransactions (getId b) input z]))
      | Inr u \<Rightarrow> (Inr (), (clearAccountsCache b, tr @ [RecordTransactions (getId b) input z])))"
  using assms
  by (simp add: record_op_def andThen_def succeed_def callRecord_def remoteCall_def split: sum.splits)

lemma record_blank_eq:
  assumes "blankTimeZone env tz" "getTimeZone env (b, tr) = (Inr z, (b1, tr1))"
  shows "record_op env input tz (b, tr) =
     (case recordTransactions env tr1 (getId b1) input z of
        Inl e \<Rightarrow> (Inl e, (b1, tr1 @ [RecordTransactions (getId b1) input z]))
      | Inr u \<Rightarrow> (Inr (), (clearAccountsCache b1, tr1 @ [RecordTransactions (getId b1) input z])))"
  using assms
  by (auto simp: record_op_def andThen_def callRecord_def remoteCall_def blankTimeZone_def
        split: sum.splits option.splits)

lemma getTimeZone_loaded:
  "wrapped b = Some w \<Longrightarrow> getTimeZone env (b, tr) = (Inr (bk_timeZone w), (b, tr))"
  by (simp add: getTimeZone_def andThen_def checkBookLoaded_def readWrapped_def)

lemma getTimeZone_unloaded:
  assumes "wrapped b = None" "getTimeZone env (b, tr) = (Inr z, (b1, tr1))"
  shows "loadBook env (b, tr) = (Inr (), (b1, tr1))"
  using assms
  by (cases "loadBook env (b, tr)")
     (auto simp: getTimeZone_def andThen_def checkBookLoaded_def readWrapped_def
        split: sum.splits option.splits)

lemma loaded_gate: "wrapped b \<noteq> None \<Longrightarrow> idAccountMap b \<noteq> None \<Longrightarrow> checkAccountsLoaded env (b, tr) = (Inr (), (b, tr))"
  by (auto simp: checkAccountsLoaded_def)

lemma loaded_getAccount:
  "wrapped b \<noteq> None \<Longrightarrow> idAccountMap b \<noteq> None \<Longrightarrow> snd (getAccount env k (b, tr)) = (b, tr)"
  by (cases k) (auto simp: getAccount_def andThen_def loaded_gate split: option.splits)

lemma loaded_getGroup:
  "wrapped b \<noteq> None \<Longrightarrow> idAccountMap b \<noteq> None \<Longrightarrow> snd (getGroup env k (b, tr)) = (b, tr)"
  by (cases k) (auto simp: getGroup_def andThen_def loaded_gate split: option.splits)

lemma loaded_cells:
  assumes "wrapped b \<noteq> None" "idAccountMap b \<noteq> None"
  shows "snd (createAccounts_cells env cells account (b, tr)) = (b, tr)"
proof (induction cells arbitrary: account)
  case Nil
  then show ?case by simp
next
  case (Cons cell cells)
  obtain r where g: "getGroup env (Some cell) (b, tr) = (r, (b, tr))"
    using loaded_getGroup[OF assms, of env "Some cell" tr]
    by (cases "getGroup env (Some cell) (b, tr)") simp
  show ?case by (simp add: g Cons.IH split: sum.splits option.splits member.splits)
qed

lemma loaded_rows:
  assumes "wrapped b \<noteq> None" "idAccountMap b \<noteq> None"
  shows "snd (createAccounts_rows env rows ps (b, tr)) = (b, tr)"
proof (induction rows arbitrary: ps)
  case Nil
  then show ?case by simp
next
  case (Cons row rows)
  let ?name = "case row of [] \<Rightarrow> None | name # _ \<Rightarrow> Some name"
  let ?acct = "\<lparr>acc_id = None, acc_name = ?name, acc_type = accountTypeValue env ASSET, acc_groups = []\<rparr>"
  obtain r where g: "getAccount env ?name (b, tr) = (r, (b, tr))"
    using loaded_getAccount[OF assms, of env ?name tr]
    by (cases "getAccount env ?name (b, tr)") simp
  obtain r2 where c: "createAccounts_cells env (drop (Suc 0) row) ?acct (b, tr) = (r2, (b, tr))"
    using loaded_cells[OF assms, of env "drop (Suc 0) row" ?acct tr]
    by (cases "createAccounts_cells env (drop (Suc 0) row) ?acct (b, tr)") simp
  show ?case by (simp add: g c Cons.IH Let_def split: sum.splits option.splits)
qed

lemma sameOrLoaded_refl: "sameOrLoaded env s s"
  by (simp add: sameOrLoaded_def)

lemma gate_sameOrLoaded:
  "checkAccountsLoaded env s = (Inr u, s1) \<Longrightarrow> sameOrLoaded env s s1"
  by (auto simp: checkAccountsLoaded_def sameOrLoaded_def split: if_splits)

lemma getAccount_sameOrLoaded:
  "getAccount env k s = (Inr x, s1) \<Longrightarrow> sameOrLoaded env s s1"
  by (cases k; cases "checkAccountsLoaded env s"; cases "fst (checkAccountsLoaded env s)")
     (auto simp: getAccount_def andThen_def sameOrLoaded_refl
        dest: gate_sameOrLoaded split: option.splits)

lemma getGroup_sameOrLoaded:
  "getGroup env k s = (Inr x, s1) \<Longrightarrow> sameOrLoaded env s s1"
  by (cases k; cases "checkAccountsLoaded env s"; cases "fst (checkAccountsLoaded env s)")
     (auto simp: getGroup_def andThen_def sameOrLoaded_refl
        dest: gate_sameOrLoaded split: option.splits)

lemma loaded_after_load:
  assumes "loadBook env s = (Inr (), s1)"
  shows "wrapped (fst s1) \<noteq> None \<and> idAccountMap (fst s1) \<noteq> None"
  using loadBook_populates[of env "fst s" "snd s" "()" "fst s1" "snd s1"] assms by simp

lemma sameOrLoaded_step:
  assumes a: "sameOrLoaded env s s'"
    and rest: "sameOrLoaded env s' s1"
    and keep: "wrapped (fst s') \<noteq> None \<Longrightarrow> idAccountMap (fst s') \<noteq> None \<Longrightarrow> s1 = s'"
  shows "sameOrLoaded env s s1"
proof (cases "s' = s")
  case True
  with rest show ?thesis by simp
next
  case False
  with a have l: "loadBook env s = (Inr (), s')" by (simp add: sameOrLoaded_def)
  from loaded_after_load[OF l] keep have "s1 = s'" by simp
  with l show ?thesis by (simp add: sameOrLoaded_def)
qed

lemma cells_sameOrLoaded:
  "createAccounts_cells env cells account s = (Inr x, s1) \<Longrightarrow> sameOrLoaded env s s1"
proof (induction cells arbitrary: account s)
  case Nil
  then show ?case by (simp add: sameOrLoaded_def)
next
  case (Cons cell cells)
  show ?case
  proof (cases "isType env cell")
    case True
    with Cons show ?thesis by simp
  next
    case False
    obtain r s' where g: "getGroup env (Some cell) s = (r, s')" by (cases "getGroup env (Some cell) s")
    from Cons.prems False g obtain found account' where
      r: "r = Inr found" and c: "createAccounts_cells env cells account' s' = (Inr x, s1)"
      by (auto split: sum.splits option.splits member.splits)
    from g r have a: "sameOrLoaded env s s'" by (auto dest: getGroup_sameOrLoaded)
    have keep: "s1 = s'" if "wrapped (fst s') \<noteq> None" "idAccountMap (fst s') \<noteq> None"
      using loaded_cells[OF that, of env cells account' "snd s'"] c by simp
    from sameOrLoaded_step[OF a Cons.IH[OF c] keep] show ?thesis .
  qed
qed

lemma rows_sameOrLoaded:
  "createAccounts_rows env rows ps s = (Inr qs, s1) \<Longrightarrow> sameOrLoaded env s s1"
proof (induction rows arbitrary: ps s)
  case Nil
  then show ?case by (simp add: sameOrLoaded_def)
next
  case (Cons row rows)
  let ?name = "case row of [] \<Rightarrow> None | name # _ \<Rightarrow> Some name"
  let ?acct = "\<lparr>acc_id = None, acc_name = ?name, acc_type = accountTypeValue env ASSET, acc_groups = []\<rparr>"
  obtain r s' where g: "getAccount env ?name s = (r, s')" by (cases "getAccount env ?name s")
  from Cons.prems g obtain found where r: "r = Inr found"
    by (cases r) (auto simp: Let_def)
  from g r have a: "sameOrLoaded env s s'" by (auto dest: getAccount_sameOrLoaded)
  show ?case
  proof (cases found)
    case (Some m)
    with Cons.prems g r have c: "createAccounts_rows env rows ps s' = (Inr qs, s1)"
      by (simp add: Let_def)
    have keep: "s1 = s'" if "wrapped (fst s') \<noteq> None" "idAccountMap (fst s') \<noteq> None"
      using loaded_rows[OF that, of env rows ps "snd s'"] c by simp
    from sameOrLoaded_step[OF a Cons.IH[OF c] keep] show ?thesis .
  next
    case None
    obtain r2 s2 where cl: "createAccounts_cells env (drop (Suc 0) row) ?acct s' = (r2, s2)"
      by (cases "createAccounts_cells env (drop (Suc 0) row) ?acct s'")
    from Cons.prems g r None cl obtain account' where r2: "r2 = Inr account'"
      and c: "createAccounts_rows env rows (ps @ [account']) s2 = (Inr qs, s1)"
      by (cases r2) (auto simp: Let_def)
    have keep1: "s2 = s'" if "wrapped (fst s') \<noteq> None" "idAccountMap (fst s') \<noteq> None"
      using loaded_cells[OF that, of env "drop (Suc 0) row" ?acct "snd s'"] cl by simp
    from cl r2 have b: "sameOrLoaded env s' s2" by (auto dest: cells_sameOrLoaded)
    from sameOrLoaded_step[OF a b keep1] have a2: "sameOrLoaded env s s2" .
    have keep2: "s1 = s2" if "wrapped (fst s2) \<noteq> None" "idAccountMap (fst s2) \<noteq> None"
      using loaded_rows[OF that, of env rows "ps @ [account']" "snd s2"] c by simp
    from sameOrLoaded_step[OF a2 Cons.IH[OF c] keep2] show ?thesis .
  qed
qed

lemma createAccounts_failure:
  assumes "createAccounts_rows env rows [] (b, tr) = (Inr ps, (b1, tr1))" "ps \<noteq> []"
    and "createAccountsService env tr1 (getId b1) ps = Inl e"
  shows "createAccounts env rows (b, tr) = (Inl e, (b1, tr1 @ [CreateAccounts (getId b1) ps]))"
  using assms by (simp add: createAccounts_def andThen_def createAccountsPayloads_eq)

lemma exampleLower_rent: "map exampleLower ''Rent'' = ''rent''"
  by (simp add: exampleLower_def)

lemma newBook_fields:
  "book_id (newBook i w) = i" "wrapped (newBook i w) = w" "accounts (newBook i w) = None"
  "groups (newBook i w) = None" "collection (newBook i w) = None"
  "idAccountMap (newBook i w) = None" "nameAccountMap (newBook i w) = None"
  "idGroupMap (newBook i w) = None" "nameGroupMap (newBook i w) = None"
  "savedQueries (newBook i w) = None"
  by (simp_all add: newBook_def)

lemma failingEnv_fields:
  "normalizeName failingEnv = map exampleLower"
  "accountNormalizedName failingEnv = (\<lambda>a. case acc_name a of None \<Rightarrow> [] | Some n \<Rightarrow> map exampleLower n)"
  "accountTypeValue failingEnv = exampleTypeValue"
  "objectPrototype failingEnv = (\<lambda>k. k \<in> set exampleObjectPrototype)"
  "trim failingEnv = exampleTrim"
  "loadBookWrapped failingEnv = (\<lambda>_ _. Inr exampleBook)"
  "createAccountsService failingEnv = (\<lambda>_ _ _. Inl (ServiceError ''unavailable''))"
  "recordTransactions failingEnv = (\<lambda>_ _ _ _. Inl (ServiceError ''unavailable''))"
  "createTransactionsBatch failingEnv = (\<lambda>_ _ _. Inl (ServiceError ''unavailable''))"
  "createGroupsService failingEnv = (\<lambda>_ _ _. Inl (ServiceError ''unavailable''))"
  by (simp_all add: failingEnv_def exampleEnv_def)

lemma exampleEnv_fields:
  "normalizeName exampleEnv = map exampleLower"
  "accountNormalizedName exampleEnv = (\<lambda>a. case acc_name a of None \<Rightarrow> [] | Some n \<Rightarrow> map exampleLower n)"
  "accountTypeValue exampleEnv = exampleTypeValue"
  "objectPrototype exampleEnv = (\<lambda>k. k \<in> set exampleObjectPrototype)"
  "trim exampleEnv = exampleTrim"
  "loadBookWrapped exampleEnv = (\<lambda>_ _. Inr exampleBook)"
  "createAccountsService exampleEnv = (\<lambda>_ _ payloads. Inr payloads)"
  "recordTransactions exampleEnv = (\<lambda>_ _ _ _. Inr ())"
  "createTransactionsBatch exampleEnv = (\<lambda>_ _ payloads. Inr payloads)"
  "createGroupsService exampleEnv = (\<lambda>_ _ payloads. Inr payloads)"
  by (simp_all add: exampleEnv_def)

lemma fresh_load_failing:
  "loadBook failingEnv (newBook ''b1'' None, []) =
     (Inr (),
      (configureAccounts failingEnv (bk_accounts exampleBook)
         (configureGroups failingEnv (bk_groups exampleBook) ((newBook ''b1'' None)\<lparr>wrapped := Some exampleBook\<rparr>)),
       [LoadBookWrapped ''b1'']))"
  by (simp add: loadBook_eq failingEnv_fields getId_def newBook_fields)

lemmas sample_unfold = configureAccounts_eq configureGroups_eq configureAccount_step_eq
  configureGroup_step_eq wrapAccounts_def wrapGroups_def exampleBook_def exampleCash_def
  exampleCashLower_def exampleGroup_def accountGetId_def accountGetNormalizedName_def
  groupGetId_def groupGetName_def jsKey_def newBook_fields getId_def readProperty_def
  exampleObjectPrototype_def

lemma fresh_getAccount_failing:
  "getAccount failingEnv (Some ''Rent'') (newBook ''b1'' None, []) =
     (Inr None, snd (loadBook failingEnv (newBook ''b1'' None, [])))"
  by (simp add: getAccount_def andThen_def checkAccountsLoaded_def fresh_load_failing
        sample_unfold failingEnv_fields exampleLower_rent exampleLower_def)

lemma fresh_rows_failing:
  "createAccounts_rows failingEnv [[''Rent'']] [] (newBook ''b1'' None, []) =
     (Inr [\<lparr>acc_id = None, acc_name = Some ''Rent'', acc_type = ''ASSET'', acc_groups = []\<rparr>],
      snd (loadBook failingEnv (newBook ''b1'' None, [])))"
  by (simp add: fresh_getAccount_failing Let_def failingEnv_fields exampleTypeValue_def)

lemma loadedState_eq:
  "loadedState =
     (configureAccounts exampleEnv (bk_accounts exampleBook)
        (configureGroups exampleEnv (bk_groups exampleBook)
           ((newBook ''b1'' None)\<lparr>wrapped := Some exampleBook\<rparr>)),
      [LoadBookWrapped ''b1''])"
  by (simp add: loadedState_def getAccounts_def andThen_def effect_def checkAccountsLoaded_def
        loadBook_eq newBook_fields exampleEnv_def)
     (simp add: getId_def newBook_fields)

lemma loadedState_miss:
  assumes "normalizeName env = map exampleLower"
    and "objectPrototype env = (\<lambda>k. k \<in> set exampleObjectPrototype)"
  shows "getAccount env (Some ''Rent'') loadedState = (Inr None, loadedState)"
    and "getGroup env (Some ''Rent'') loadedState = (Inr None, loadedState)"
  by (simp_all add: getAccount_def getGroup_def andThen_def checkAccountsLoaded_def loadedState_eq
        sample_unfold assms exampleLower_rent)
     (simp_all add: exampleEnv_def exampleLower_def)

lemma exampleTrim_UTC: "exampleTrim ''UTC'' \<noteq> []"
  by (simp add: exampleTrim_def exampleWhiteSpace_def)


lemma example_load: "loadBookWrapped exampleEnv tr i = Inr exampleBook"
  by (simp add: exampleEnv_def)





lemma gate_post:
  assumes "collectionsInv (fst s)" and "checkAccountsLoaded env s = (Inr u, s')"
  shows "accounts (fst s') \<noteq> None \<and> groups (fst s') \<noteq> None \<and> idAccountMap (fst s') \<noteq> None \<and>
         nameAccountMap (fst s') \<noteq> None \<and> idGroupMap (fst s') \<noteq> None \<and>
         nameGroupMap (fst s') \<noteq> None"
proof (cases "wrapped (fst s) = None \<or> idAccountMap (fst s) = None")
  case True
  obtain b tr where s: "s = (b, tr)" by (cases s)
  obtain b' tr' where s': "s' = (b', tr')" by (cases s')
  from True assms(2) have "loadBook env (b, tr) = (Inr u, (b', tr'))"
    by (auto simp: checkAccountsLoaded_def s s')
  from loadBook_populates[OF this] show ?thesis by (simp add: s')
next
  case False
  with assms(2) have "s' = s" by (auto simp: checkAccountsLoaded_def)
  with False assms(1) show ?thesis by (auto simp: collectionsInv_def)
qed

lemma lookup_by_id_then_name:
  assumes "s = run env ms (newBook i w, [])"
  shows "(checkAccountsLoaded env s = (Inl e, s') \<longrightarrow>
            getAccount env (Some k) s = (Inl e, s') \<and> getGroup env (Some k) s = (Inl e, s')) \<and>
         (checkAccountsLoaded env s = (Inr u, s') \<longrightarrow>
            (\<exists>ia na ig ng.
               idAccountMap (fst s') = Some ia \<and> nameAccountMap (fst s') = Some na \<and>
               idGroupMap (fst s') = Some ig \<and> nameGroupMap (fst s') = Some ng \<and>
               accounts (fst s') \<noteq> None \<and> groups (fst s') \<noteq> None \<and>
               getAccount env (Some k) s =
                 (Inr (case readProperty env ia k of
                         Some a \<Rightarrow> Some a
                       | None \<Rightarrow> readProperty env na (normalizeName env k)), s') \<and>
               getGroup env (Some k) s =
                 (Inr (case readProperty env ig k of
                         Some g \<Rightarrow> Some g
                       | None \<Rightarrow> readProperty env ng (normalizeName env k)), s'))) \<and>
         (wrapped (fst s) \<noteq> None \<and> idAccountMap (fst s) \<noteq> None \<longrightarrow>
            checkAccountsLoaded env s = (Inr (), s))"
proof (intro conjI impI)
  assume "checkAccountsLoaded env s = (Inl e, s')"
  then show "getAccount env (Some k) s = (Inl e, s')" "getGroup env (Some k) s = (Inl e, s')"
    by (simp_all add: getAccount_def getGroup_def andThen_def)
next
  assume g: "checkAccountsLoaded env s = (Inr u, s')"
  have inv: "collectionsInv (fst s)" unfolding assms by (rule reachable_collectionsInv)
  from gate_post[OF inv g]
  obtain ia na ig ng where m: "idAccountMap (fst s') = Some ia" "nameAccountMap (fst s') = Some na"
      "idGroupMap (fst s') = Some ig" "nameGroupMap (fst s') = Some ng"
    and l: "accounts (fst s') \<noteq> None" "groups (fst s') \<noteq> None"
    by auto
  have "getAccount env (Some k) s =
          (Inr (case readProperty env ia k of
                  Some a \<Rightarrow> Some a
                | None \<Rightarrow> readProperty env na (normalizeName env k)), s')"
    by (simp add: getAccount_def andThen_def g m split: option.splits)
  moreover have "getGroup env (Some k) s =
          (Inr (case readProperty env ig k of
                  Some g \<Rightarrow> Some g
                | None \<Rightarrow> readProperty env ng (normalizeName env k)), s')"
    by (simp add: getGroup_def andThen_def g m split: option.splits)
  ultimately show "\<exists>ia na ig ng.
               idAccountMap (fst s') = Some ia \<and> nameAccountMap (fst s') = Some na \<and>
               idGroupMap (fst s') = Some ig \<and> nameGroupMap (fst s') = Some ng \<and>
               accounts (fst s') \<noteq> None \<and> groups (fst s') \<noteq> None \<and>
               getAccount env (Some k) s =
                 (Inr (case readProperty env ia k of
                         Some a \<Rightarrow> Some a
                       | None \<Rightarrow> readProperty env na (normalizeName env k)), s') \<and>
               getGroup env (Some k) s =
                 (Inr (case readProperty env ig k of
                         Some g \<Rightarrow> Some g
                       | None \<Rightarrow> readProperty env ng (normalizeName env k)), s')"
    using m l by blast
next
  assume "wrapped (fst s) \<noteq> None \<and> idAccountMap (fst s) \<noteq> None"
  then show "checkAccountsLoaded env s = (Inr (), s)"
    by (auto simp: checkAccountsLoaded_def)
qed

lemma stable_savedQueries:
  "stable env (\<lambda>s. savedQueries (fst s) = Some qs \<and> savedQueryFetches (snd s) = n)"
  unfolding stable_def
  by (intro conjI allI impI)
     (auto simp: savedQueryFetches_def configured_fields clearAccountsCache_def
        clearBookCache_def getSavedQueries_def)

lemma exampleLower_constructor: "map exampleLower ''constructor'' = ''constructor''"
  by (simp add: exampleLower_def)

section \<open>The claims\<close>

text \<open>
  Claim C1, as stated, fails on a loaded Book: after a successful
  \<open>batchCreateTransactions\<close> the id index of the groups is dropped, and the name index of
  the accounts is still there.
\<close>

theorem batchCreateTransactions_drops_groups_keeps_names:
  "fst (batchCreateTransactions exampleEnv [exampleTransaction] loadedState)
     = Inr [exampleTransaction\<lparr>transaction_book := Some ''b1''\<rparr>] \<and>
   idGroupMap (fst loadedState) \<noteq> None \<and>
   idGroupMap (fst (snd (batchCreateTransactions exampleEnv [exampleTransaction] loadedState))) = None \<and>
   nameAccountMap (fst (snd (batchCreateTransactions exampleEnv [exampleTransaction] loadedState))) \<noteq> None"
proof -
  obtain b tr where s: "loadedState = (b, tr)" by (cases loadedState)
  have f: "idGroupMap b \<noteq> None" "nameAccountMap b \<noteq> None" "book_id b = ''b1''"
    using loadedState_fields[unfolded s] by simp_all
  have c: "createTransactionsBatch exampleEnv tr i ps = Inr ps" for i ps
    by (simp add: exampleEnv_def)
  show ?thesis using f
    by (simp add: s batchCreateTransactions_eq c clearAccountsCache_def configureTransactions_def
          configureTransaction_def wrapTransactions_def exampleTransaction_def getId_def)
qed

text \<open>
  Claim C1 (amended): a successful \<open>batchCreateTransactions\<close> drops exactly the two id
  index maps, \<open>idAccountMap\<close> and \<open>idGroupMap\<close>, and leaves every other field of the
  Book as it was: the two sequences, the two name index maps and the loaded snapshot.
  \<open>record\<close> does the same to the Book it has after its own lazy load: with no time zone
  given (or one that \<open>trim\<close> leaves empty) and no snapshot loaded it loads the Book
  first.
\<close>

theorem batchCreateTransactions_frame:
  "(batchCreateTransactions env txs (b, tr) = (Inr r, (b', tr')) \<longrightarrow>
      b' = b\<lparr>idAccountMap := None, idGroupMap := None\<rparr>) \<and>
   (record_op env input tz (b, tr) = (Inr u, (b', tr')) \<longrightarrow>
      b' = (if blankTimeZone env tz \<and> wrapped b = None
            then fst (snd (loadBook env (b, tr))) else b)
           \<lparr>idAccountMap := None, idGroupMap := None\<rparr>)"
proof (intro conjI impI)
  assume "batchCreateTransactions env txs (b, tr) = (Inr r, (b', tr'))"
  then show "b' = b\<lparr>idAccountMap := None, idGroupMap := None\<rparr>"
    by (simp add: batchCreateTransactions_eq clearAccountsCache_def split: sum.splits)
next
  assume a: "record_op env input tz (b, tr) = (Inr u, (b', tr'))"
  show "b' = (if blankTimeZone env tz \<and> wrapped b = None
            then fst (snd (loadBook env (b, tr))) else b)
           \<lparr>idAccountMap := None, idGroupMap := None\<rparr>"
    using a
    by (cases "loadBookWrapped env tr (getId b)")
       (auto simp: record_op_def andThen_def getTimeZone_def checkBookLoaded_def readWrapped_def
          succeed_def callRecord_def remoteCall_def clearAccountsCache_def loadBook_eq
          configured_fields blankTimeZone_def
          split: option.splits sum.splits if_splits prod.splits)
qed

text \<open>
  The amended C1 on the sample ledger, for \<open>batchCreateTransactions\<close> and for
  \<open>record\<close> with a time zone.
\<close>

theorem batchCreateTransactions_frame_witness:
  "fst (snd (batchCreateTransactions exampleEnv [exampleTransaction] loadedState)) =
     (fst loadedState)\<lparr>idAccountMap := None, idGroupMap := None\<rparr> \<and>
   fst (snd (record_op exampleEnv (Text ''#gas 63.23'') (Some ''UTC'') loadedState)) =
     (fst loadedState)\<lparr>idAccountMap := None, idGroupMap := None\<rparr>"
proof -
  obtain b tr where s: "loadedState = (b, tr)" by (cases loadedState)
  have w: "wrapped b \<noteq> None" using loadedState_fields[unfolded s] by simp
  obtain r b1 tr1 where e1:
    "batchCreateTransactions exampleEnv [exampleTransaction] (b, tr) = (Inr r, (b1, tr1))"
    by (simp add: batchCreateTransactions_eq exampleEnv_fields)
  have t: "trim exampleEnv ''UTC'' \<noteq> []" by (simp add: exampleEnv_fields exampleTrim_UTC)
  obtain b2 tr2 where e2:
    "record_op exampleEnv (Text ''#gas 63.23'') (Some ''UTC'') (b, tr) = (Inr (), (b2, tr2))"
    by (simp add: record_given_eq[OF refl t] exampleEnv_fields)
  from batchCreateTransactions_frame[of exampleEnv "[exampleTransaction]" b tr r b1 tr1] e1
  have "b1 = b\<lparr>idAccountMap := None, idGroupMap := None\<rparr>" by simp
  moreover
  from batchCreateTransactions_frame[of exampleEnv _ b tr _ b2 tr2 "Text ''#gas 63.23''" "Some ''UTC''" "()"] e2 w
  have "b2 = b\<lparr>idAccountMap := None, idGroupMap := None\<rparr>" by simp
  ultimately show ?thesis by (simp add: s e1 e2)
qed

text \<open>
  Claim C2, as stated, fails on a loaded Book: a successful \<open>batchCreateAccounts\<close> drops
  the loaded snapshot and keeps the two sequences and the four index maps.
\<close>

theorem batchCreateAccounts_drops_snapshot_only:
  "fst (batchCreateAccounts exampleEnv [exampleAccount] loadedState)
     = Inr [exampleAccount\<lparr>account_book := Some ''b1''\<rparr>] \<and>
   wrapped (fst loadedState) \<noteq> None \<and>
   wrapped (fst (snd (batchCreateAccounts exampleEnv [exampleAccount] loadedState))) = None \<and>
   accounts (fst (snd (batchCreateAccounts exampleEnv [exampleAccount] loadedState))) \<noteq> None \<and>
   groups (fst (snd (batchCreateAccounts exampleEnv [exampleAccount] loadedState))) \<noteq> None \<and>
   idAccountMap (fst (snd (batchCreateAccounts exampleEnv [exampleAccount] loadedState))) \<noteq> None \<and>
   nameAccountMap (fst (snd (batchCreateAccounts exampleEnv [exampleAccount] loadedState))) \<noteq> None \<and>
   idGroupMap (fst (snd (batchCreateAccounts exampleEnv [exampleAccount] loadedState))) \<noteq> None \<and>
   nameGroupMap (fst (snd (batchCreateAccounts exampleEnv [exampleAccount] loadedState))) \<noteq> None"
proof -
  obtain b tr where s: "loadedState = (b, tr)" by (cases loadedState)
  have f: "wrapped b \<noteq> None" "accounts b \<noteq> None" "groups b \<noteq> None" "idAccountMap b \<noteq> None"
    "nameAccountMap b \<noteq> None" "idGroupMap b \<noteq> None" "nameGroupMap b \<noteq> None" "book_id b = ''b1''"
    using loadedState_fields[unfolded s] by simp_all
  have c: "createAccountsService exampleEnv tr i ps = Inr ps" for i ps
    by (simp add: exampleEnv_def)
  show ?thesis using f
    by (simp add: s batchCreateAccounts_def createAccountsPayloads_eq c clearBookCache_def
          wrapAccounts_def exampleAccount_def getId_def)
qed

text \<open>
  Claim C2 (amended): for a non-empty batch, a successful \<open>batchCreateAccounts\<close> drops
  the loaded snapshot \<open>wrapped\<close> and nothing else; the sequences and the four index maps
  stay as they were (the next read reloads them, since both gates test \<open>wrapped\<close>). It
  makes exactly one remote call.
\<close>

theorem batchCreateAccounts_frame:
  assumes "accs \<noteq> []"
    and "batchCreateAccounts env accs (b, tr) = (Inr r, (b', tr'))"
  shows "b' = b\<lparr>wrapped := None\<rparr> \<and>
         tr' = tr @ [CreateAccounts (getId b) (map account_wrapped accs)]"
  using assms
  by (auto simp: batchCreateAccounts_def createAccountsPayloads_eq clearBookCache_def
        split: sum.splits)

text \<open>
  The amended C2 on the sample ledger.
\<close>

theorem batchCreateAccounts_frame_witness:
  "snd (batchCreateAccounts exampleEnv [exampleAccount] loadedState) =
     ((fst loadedState)\<lparr>wrapped := None\<rparr>,
      [LoadBookWrapped ''b1'', CreateAccounts ''b1'' [account_wrapped exampleAccount]])"
proof -
  obtain b tr where s: "loadedState = (b, tr)" by (cases loadedState)
  have f: "book_id b = ''b1''" "tr = [LoadBookWrapped ''b1'']"
    using loadedState_fields[unfolded s] by simp_all
  obtain r b' tr' where e: "batchCreateAccounts exampleEnv [exampleAccount] (b, tr) = (Inr r, (b', tr'))"
    by (simp add: batchCreateAccounts_def createAccountsPayloads_eq exampleEnv_def)
  show ?thesis unfolding s using batchCreateAccounts_frame[OF _ e] e f by (simp add: getId_def)
qed

text \<open>
  Claim C3, as stated, fails for \<open>createAccounts\<close> and \<open>record\<close> on a fresh Book: both
  load the Book before their remote mutation call, and when that call fails the loaded
  snapshot stays.
\<close>

theorem failed_createAccounts_leaves_book_loaded:
  "fst (createAccounts failingEnv [[''Rent'']] (newBook ''b1'' None, [])) = Inl (ServiceError ''unavailable'') \<and>
   wrapped (newBook ''b1'' None) = None \<and>
   wrapped (fst (snd (createAccounts failingEnv [[''Rent'']] (newBook ''b1'' None, [])))) = Some exampleBook \<and>
   fst (record_op failingEnv (Text ''#gas 63.23'') None (newBook ''b1'' None, [])) = Inl (ServiceError ''unavailable'') \<and>
   wrapped (fst (snd (record_op failingEnv (Text ''#gas 63.23'') None (newBook ''b1'' None, [])))) = Some exampleBook"
proof -
  have w: "wrapped (fst (snd (loadBook failingEnv (newBook ''b1'' None, [])))) = Some exampleBook"
    by (simp add: fresh_load_failing configured_fields)
  have c: "createAccounts failingEnv [[''Rent'']] (newBook ''b1'' None, []) =
      (Inl (ServiceError ''unavailable''),
       (fst (snd (loadBook failingEnv (newBook ''b1'' None, []))),
        snd (snd (loadBook failingEnv (newBook ''b1'' None, []))) @
          [CreateAccounts (getId (fst (snd (loadBook failingEnv (newBook ''b1'' None, [])))))
             [\<lparr>acc_id = None, acc_name = Some ''Rent'', acc_type = ''ASSET'', acc_groups = []\<rparr>]]))"
    by (simp only: createAccounts_def andThen_def fresh_rows_failing)
       (simp add: createAccountsPayloads_eq[of failingEnv _ "fst (snd (loadBook failingEnv (newBook ''b1'' None, [])))" "snd (snd (loadBook failingEnv (newBook ''b1'' None, [])))", simplified]
          failingEnv_fields)
  have r: "record_op failingEnv (Text ''#gas 63.23'') None (newBook ''b1'' None, []) =
      (Inl (ServiceError ''unavailable''),
       (fst (snd (loadBook failingEnv (newBook ''b1'' None, []))),
        [LoadBookWrapped ''b1'', RecordTransactions ''b1'' (Text ''#gas 63.23'') ''UTC'']))"
    by (simp add: record_op_def andThen_def getTimeZone_def checkBookLoaded_def
          fresh_load_failing readWrapped_def configured_fields callRecord_def remoteCall_def
          failingEnv_fields getId_def exampleBook_def newBook_fields)
  show ?thesis by (simp add: c r w newBook_fields)
qed

text \<open>
  Claim C3 (amended): when the remote mutation call of a mutation method fails, the
  method throws the service's error and the Book is exactly as it was just before that
  remote call (only the call is logged). For \<open>batchCreateAccounts\<close>,
  \<open>batchCreateGroups\<close>, \<open>createGroups\<close> and \<open>batchCreateTransactions\<close>, and for
  \<open>record\<close> with a time zone that is not blank, that is the Book as it was when the
  method was called. \<open>record\<close> with no time zone (or a blank one) reads the time zone
  first, and \<open>createAccounts\<close> looks its rows up first: on a loaded Book these reads
  change nothing, on a Book that is not loaded they load it, and the failure then leaves
  the Book as that load made it.
\<close>

theorem failed_mutation_keeps_cache:
  "(accs \<noteq> [] \<and> createAccountsService env tr (getId b) (map account_wrapped accs) = Inl e \<longrightarrow>
      batchCreateAccounts env accs (b, tr) =
        (Inl e, (b, tr @ [CreateAccounts (getId b) (map account_wrapped accs)]))) \<and>
   (gs \<noteq> [] \<and> createGroupsService env tr (getId b) (map group_wrapped gs) = Inl e \<longrightarrow>
      batchCreateGroups env gs (b, tr) =
        (Inl e, (b, tr @ [CreateGroups (getId b) (map group_wrapped gs)]))) \<and>
   (names \<noteq> [] \<and>
    createGroupsService env tr (getId b) (map (\<lambda>n. \<lparr>grp_id = None, grp_name = n\<rparr>) names) = Inl e \<longrightarrow>
      createGroups env names (b, tr) =
        (Inl e, (b, tr @ [CreateGroups (getId b) (map (\<lambda>n. \<lparr>grp_id = None, grp_name = n\<rparr>) names)]))) \<and>
   (createTransactionsBatch env tr (getId b) (map transaction_wrapped txs) = Inl e \<longrightarrow>
      batchCreateTransactions env txs (b, tr) =
        (Inl e, (b, tr @ [CreateTransactionsBatch (getId b) (map transaction_wrapped txs)]))) \<and>
   (tz = Some z \<and> trim env z \<noteq> [] \<and> recordTransactions env tr (getId b) input z = Inl e \<longrightarrow>
      record_op env input tz (b, tr) = (Inl e, (b, tr @ [RecordTransactions (getId b) input z]))) \<and>
   (blankTimeZone env tz \<and> getTimeZone env (b, tr) = (Inr z, (b1, tr1)) \<and>
    recordTransactions env tr1 (getId b1) input z = Inl e \<longrightarrow>
      record_op env input tz (b, tr) =
        (Inl e, (b1, tr1 @ [RecordTransactions (getId b1) input z]))) \<and>
   (wrapped b = Some w \<longrightarrow> getTimeZone env (b, tr) = (Inr (bk_timeZone w), (b, tr))) \<and>
   (wrapped b = None \<and> getTimeZone env (b, tr) = (Inr z, (b1, tr1)) \<longrightarrow>
      loadBook env (b, tr) = (Inr (), (b1, tr1))) \<and>
   (createAccounts_rows env rows [] (b, tr) = (Inr ps, (b1, tr1)) \<and> ps \<noteq> [] \<and>
    createAccountsService env tr1 (getId b1) ps = Inl e \<longrightarrow>
      createAccounts env rows (b, tr) = (Inl e, (b1, tr1 @ [CreateAccounts (getId b1) ps]))) \<and>
   (createAccounts_rows env rows [] (b, tr) = (Inr ps, (b1, tr1)) \<longrightarrow>
      (b1, tr1) = (b, tr) \<or> loadBook env (b, tr) = (Inr (), (b1, tr1))) \<and>
   (wrapped b \<noteq> None \<and> idAccountMap b \<noteq> None \<and>
    createAccounts_rows env rows [] (b, tr) = (Inr ps, (b1, tr1)) \<longrightarrow> (b1, tr1) = (b, tr))"
proof (intro conjI impI; (elim conjE)?)
  assume "createAccounts_rows env rows [] (b, tr) = (Inr ps, (b1, tr1))"
  from rows_sameOrLoaded[OF this]
  show "(b1, tr1) = (b, tr) \<or> loadBook env (b, tr) = (Inr (), (b1, tr1))"
    by (simp add: sameOrLoaded_def)
next
  assume "wrapped b \<noteq> None" "idAccountMap b \<noteq> None"
    and "createAccounts_rows env rows [] (b, tr) = (Inr ps, (b1, tr1))"
  with loaded_rows[of b env rows "[]" tr] show "(b1, tr1) = (b, tr)" by simp
qed (simp_all add: batchCreateAccounts_def createAccountsPayloads_eq batchCreateGroups_eq
       createGroups_eq createGroupsPayloads_eq batchCreateTransactions_eq record_given_eq
       record_blank_eq getTimeZone_loaded getTimeZone_unloaded createAccounts_failure)

text \<open>
  The amended C3 on the sample ledger with services whose mutations fail: on the loaded
  Book, and for \<open>createAccounts\<close> on a new Book as well.
\<close>

theorem failed_mutation_keeps_cache_witness:
  "batchCreateAccounts failingEnv [exampleAccount] loadedState =
     (Inl (ServiceError ''unavailable''),
      (fst loadedState, snd loadedState @ [CreateAccounts ''b1'' [account_wrapped exampleAccount]])) \<and>
   batchCreateTransactions failingEnv [exampleTransaction] loadedState =
     (Inl (ServiceError ''unavailable''),
      (fst loadedState,
       snd loadedState @ [CreateTransactionsBatch ''b1'' [transaction_wrapped exampleTransaction]])) \<and>
   record_op failingEnv (Text ''#gas 63.23'') (Some ''UTC'') loadedState =
     (Inl (ServiceError ''unavailable''),
      (fst loadedState, snd loadedState @ [RecordTransactions ''b1'' (Text ''#gas 63.23'') ''UTC''])) \<and>
   record_op failingEnv (Text ''#gas 63.23'') None loadedState =
     (Inl (ServiceError ''unavailable''),
      (fst loadedState, snd loadedState @ [RecordTransactions ''b1'' (Text ''#gas 63.23'') ''UTC''])) \<and>
   createAccounts failingEnv [[''Rent'']] loadedState =
     (Inl (ServiceError ''unavailable''),
      (fst loadedState,
       snd loadedState @
         [CreateAccounts ''b1''
            [\<lparr>acc_id = None, acc_name = Some ''Rent'', acc_type = ''ASSET'', acc_groups = []\<rparr>]])) \<and>
   createAccounts failingEnv [[''Rent'']] (newBook ''b1'' None, []) =
     (Inl (ServiceError ''unavailable''),
      (fst (snd (loadBook failingEnv (newBook ''b1'' None, []))),
       [LoadBookWrapped ''b1'',
        CreateAccounts ''b1''
          [\<lparr>acc_id = None, acc_name = Some ''Rent'', acc_type = ''ASSET'', acc_groups = []\<rparr>]]))"
proof -
  let ?e = "ServiceError ''unavailable''"
  let ?p = "[\<lparr>acc_id = None, acc_name = Some ''Rent'', acc_type = ''ASSET'', acc_groups = []\<rparr>]"
  obtain b tr where s: "loadedState = (b, tr)" by (cases loadedState)
  have f: "wrapped b = Some exampleBook" "idAccountMap b \<noteq> None" "getId b = ''b1''"
    using loadedState_fields[unfolded s] by (simp_all add: getId_def)
  have t: "trim failingEnv ''UTC'' \<noteq> []" by (simp add: failingEnv_fields exampleTrim_UTC)
  have z: "bk_timeZone exampleBook = ''UTC''" by (simp add: exampleBook_def)
  have rl: "createAccounts_rows failingEnv [[''Rent'']] [] (b, tr) = (Inr ?p, (b, tr))"
    using loadedState_miss(1)[OF failingEnv_fields(1) failingEnv_fields(4)]
    by (simp add: s Let_def failingEnv_fields exampleTypeValue_def)
  obtain bf trf where lf: "snd (loadBook failingEnv (newBook ''b1'' None, [])) = (bf, trf)"
    by (cases "snd (loadBook failingEnv (newBook ''b1'' None, []))")
  have ff: "trf = [LoadBookWrapped ''b1'']" "getId bf = ''b1''"
    using lf by (auto simp: fresh_load_failing getId_def configured_fields newBook_fields)
  have rf: "createAccounts_rows failingEnv [[''Rent'']] [] (newBook ''b1'' None, []) = (Inr ?p, (bf, trf))"
    by (simp only: fresh_rows_failing lf)
  note loaded = failed_mutation_keeps_cache[where env = failingEnv and b = b and tr = tr
      and e = ?e and accs = "[exampleAccount]" and txs = "[exampleTransaction]"
      and input = "Text ''#gas 63.23''" and tz = "Some ''UTC''" and z = "''UTC''"
      and rows = "[[''Rent'']]" and ps = ?p and ?b1.0 = b and ?tr1.0 = tr]
  note blank = failed_mutation_keeps_cache[where env = failingEnv and b = b and tr = tr
      and e = ?e and input = "Text ''#gas 63.23''" and tz = None and z = "''UTC''"
      and w = exampleBook and ?b1.0 = b and ?tr1.0 = tr]
  note fresh = failed_mutation_keeps_cache[where env = failingEnv and b = "newBook ''b1'' None"
      and tr = "[]" and e = ?e and rows = "[[''Rent'']]" and ps = ?p and ?b1.0 = bf and ?tr1.0 = trf]
  have 1: "batchCreateAccounts failingEnv [exampleAccount] (b, tr) =
      (Inl ?e, (b, tr @ [CreateAccounts ''b1'' [account_wrapped exampleAccount]]))"
    using loaded f by (simp add: failingEnv_fields)
  have 2: "batchCreateTransactions failingEnv [exampleTransaction] (b, tr) =
      (Inl ?e, (b, tr @ [CreateTransactionsBatch ''b1'' [transaction_wrapped exampleTransaction]]))"
    using loaded f by (simp add: failingEnv_fields)
  have 3: "record_op failingEnv (Text ''#gas 63.23'') (Some ''UTC'') (b, tr) =
      (Inl ?e, (b, tr @ [RecordTransactions ''b1'' (Text ''#gas 63.23'') ''UTC'']))"
    using loaded f t by (simp add: failingEnv_fields)
  have g: "getTimeZone failingEnv (b, tr) = (Inr ''UTC'', (b, tr))"
    using blank f z by simp
  have 4: "record_op failingEnv (Text ''#gas 63.23'') None (b, tr) =
      (Inl ?e, (b, tr @ [RecordTransactions ''b1'' (Text ''#gas 63.23'') ''UTC'']))"
    using blank f g by (simp add: failingEnv_fields blankTimeZone_def)
  have 5: "createAccounts failingEnv [[''Rent'']] (b, tr) =
      (Inl ?e, (b, tr @ [CreateAccounts ''b1'' ?p]))"
    using loaded f rl by (simp add: failingEnv_fields)
  have 6: "createAccounts failingEnv [[''Rent'']] (newBook ''b1'' None, []) =
      (Inl ?e, (bf, trf @ [CreateAccounts ''b1'' ?p]))"
    using fresh ff rf by (simp add: failingEnv_fields)
  show ?thesis
    by (simp only: s fst_conv snd_conv 1 2 3 4 5 6 lf ff) simp
qed

text \<open>
  Claim C4, as stated, fails: after a load and a successful \<open>batchCreateTransactions\<close>
  the Book still holds the accounts sequence and the name index of the accounts, while
  the id index of the accounts is dropped.
\<close>

theorem reachable_state_with_partial_collections:
  "accounts (fst (run exampleEnv [GetAccounts, Mutation (BatchCreateTransactions [exampleTransaction])]
                    (newBook ''b1'' None, []))) \<noteq> None \<and>
   nameAccountMap (fst (run exampleEnv [GetAccounts, Mutation (BatchCreateTransactions [exampleTransaction])]
                    (newBook ''b1'' None, []))) \<noteq> None \<and>
   idAccountMap (fst (run exampleEnv [GetAccounts, Mutation (BatchCreateTransactions [exampleTransaction])]
                    (newBook ''b1'' None, []))) = None"
proof -
  obtain b tr where s: "loadedState = (b, tr)" by (cases loadedState)
  have f: "accounts b \<noteq> None" "nameAccountMap b \<noteq> None"
    using loadedState_fields[unfolded s] by simp_all
  have r: "run exampleEnv [GetAccounts, Mutation (BatchCreateTransactions [exampleTransaction])]
             (newBook ''b1'' None, []) =
           snd (effect (batchCreateTransactions exampleEnv [exampleTransaction] loadedState))"
    by (simp add: loadedState_def)
  have c: "createTransactionsBatch exampleEnv tr i ps = Inr ps" for i ps
    by (simp add: exampleEnv_def)
  show ?thesis unfolding r s using f
    by (simp add: snd_effect batchCreateTransactions_eq clearAccountsCache_def c)
qed

text \<open>
  Claim C4 (amended): in every state a client can reach from a new Book by calling its
  public methods, the accounts sequence, the groups sequence and the two name index maps
  are all set or all unset, the two id index maps are both set or both unset, and the id
  index maps are set only when the sequences and the name index maps are. A load that
  succeeds sets all six together.
\<close>

theorem collections_invariant:
  "collectionsInv (fst (run env ms (newBook i w, []))) \<and>
   (loadBook env (b, tr) = (Inr u, (b', tr')) \<longrightarrow>
      accounts b' \<noteq> None \<and> groups b' \<noteq> None \<and> idAccountMap b' \<noteq> None \<and>
      nameAccountMap b' \<noteq> None \<and> idGroupMap b' \<noteq> None \<and> nameGroupMap b' \<noteq> None)"
  using reachable_collectionsInv[of env ms i w "[]"] loadBook_populates[of env b tr u b' tr']
  by simp

text \<open>
  The amended C4 on the sample ledger: the invariant after a load and a batch of
  transactions, and the fields after a load.
\<close>

theorem collections_invariant_witness:
  "collectionsInv (fst (run exampleEnv [GetAccounts, Mutation (BatchCreateTransactions [exampleTransaction])]
                          (newBook ''b1'' None, []))) \<and>
   accounts (fst (snd (loadBook exampleEnv (newBook ''b1'' None, [])))) \<noteq> None \<and>
   idAccountMap (fst (snd (loadBook exampleEnv (newBook ''b1'' None, [])))) \<noteq> None \<and>
   idGroupMap (fst (snd (loadBook exampleEnv (newBook ''b1'' None, [])))) \<noteq> None"
proof -
  obtain b' tr' where l: "loadBook exampleEnv (newBook ''b1'' None, []) = (Inr (), (b', tr'))"
    by (simp add: loadBook_eq exampleEnv_def)
  from collections_invariant[of exampleEnv
         "[GetAccounts, Mutation (BatchCreateTransactions [exampleTransaction])]" "''b1''" None
         "newBook ''b1'' None" "[]" "()" b' tr'] l
  show ?thesis by simp
qed



text \<open>
  Claim C6 fails on the code for a key that names a member of \<open>Object.prototype\<close>. On
  the sample ledger, loaded, neither index of the accounts holds \<open>constructor\<close> (with
  nothing inherited the lookup is a miss), yet \<open>getAccount\<close> returns the inherited
  member, which is not null and not an account; so does \<open>getGroup\<close> for \<open>toString\<close>.
  In \<open>createAccounts\<close> a row named \<open>constructor\<close> is then skipped as already created,
  and a cell \<open>toString\<close> ends the method with a TypeError.
\<close>

theorem lookup_of_inherited_name:
  "getAccount (exampleEnv\<lparr>objectPrototype := (\<lambda>_. False)\<rparr>) (Some ''constructor'') loadedState =
     (Inr None, loadedState) \<and>
   getAccount exampleEnv (Some ''constructor'') loadedState =
     (Inr (Some (Inherited ''constructor'')), loadedState) \<and>
   getGroup (exampleEnv\<lparr>objectPrototype := (\<lambda>_. False)\<rparr>) (Some ''toString'') loadedState =
     (Inr None, loadedState) \<and>
   getGroup exampleEnv (Some ''toString'') loadedState =
     (Inr (Some (Inherited ''toString'')), loadedState) \<and>
   createAccounts exampleEnv [[''constructor'']] loadedState = (Inr [], loadedState) \<and>
   createAccounts exampleEnv [[''Rent'', ''toString'']] loadedState = (Inl TypeError, loadedState)"
proof -
  have n: "normalizeName (exampleEnv\<lparr>objectPrototype := (\<lambda>_. False)\<rparr>) = map exampleLower"
    "objectPrototype (exampleEnv\<lparr>objectPrototype := (\<lambda>_. False)\<rparr>) = (\<lambda>_. False)"
    by (simp_all add: exampleEnv_def)
  have l: "map exampleLower ''toString'' = ''tostring''" by (simp add: exampleLower_def)
  have t: "isType exampleEnv ''toString'' = False"
    by (simp add: isType_def exampleEnv_fields exampleTypeValue_def)
  have 1: "getAccount (exampleEnv\<lparr>objectPrototype := (\<lambda>_. False)\<rparr>) (Some ''constructor'') loadedState =
     (Inr None, loadedState)"
    by (simp add: getAccount_def andThen_def checkAccountsLoaded_def loadedState_eq
          sample_unfold n exampleLower_constructor)
       (simp add: exampleEnv_def)
  have 2: "getAccount exampleEnv (Some ''constructor'') loadedState =
     (Inr (Some (Inherited ''constructor'')), loadedState)"
    by (simp add: getAccount_def andThen_def checkAccountsLoaded_def loadedState_eq
          sample_unfold exampleEnv_fields exampleLower_constructor)
  have 3: "getGroup (exampleEnv\<lparr>objectPrototype := (\<lambda>_. False)\<rparr>) (Some ''toString'') loadedState =
     (Inr None, loadedState)"
    by (simp add: getGroup_def andThen_def checkAccountsLoaded_def loadedState_eq
          sample_unfold n l exampleLower_def)
       (simp add: exampleEnv_def)
  have 4: "getGroup exampleEnv (Some ''toString'') loadedState =
     (Inr (Some (Inherited ''toString'')), loadedState)"
    by (simp add: getGroup_def andThen_def checkAccountsLoaded_def loadedState_eq
          sample_unfold exampleEnv_fields l)
  have 5: "createAccounts exampleEnv [[''constructor'']] loadedState = (Inr [], loadedState)"
    by (simp add: createAccounts_def andThen_def 2 Let_def createAccountsPayloads_def succeed_def)
  have 6: "createAccounts exampleEnv [[''Rent'', ''toString'']] loadedState = (Inl TypeError, loadedState)"
    by (simp add: createAccounts_def andThen_def Let_def t 4
          loadedState_miss(1)[OF exampleEnv_fields(1) exampleEnv_fields(4)])
  from 1 2 3 4 5 6 show ?thesis by blast
qed

text \<open>
  Claim C7: \<open>getAccount(null)\<close> and \<open>getGroup(null)\<close> return null and leave the state
  as it is, the log of remote calls included, whatever the Book's state.
\<close>

theorem getAccount_getGroup_null:
  "getAccount env None s = (Inr None, s) \<and> getGroup env None s = (Inr None, s)"
  by (simp add: getAccount_def getGroup_def)

text \<open>
  Claim C8: \<open>batchCreateAccounts([])\<close> and \<open>batchCreateGroups([])\<close> return the empty
  list and leave the state as it is: no remote call is logged and no field changes.
\<close>

theorem batchCreate_empty:
  "batchCreateAccounts env [] s = (Inr [], s) \<and> batchCreateGroups env [] s = (Inr [], s)"
  by (simp add: batchCreateAccounts_def createAccountsPayloads_def batchCreateGroups_def succeed_def)

text \<open>
  Claim C9: a load whose fetch is answered throws nothing, and in each of the four index
  maps it builds, a key is mapped to the last entity of the loaded list that has this
  key. So of two accounts (or groups) whose names normalize to the same key, the name
  index holds the later one, and the id index maps the id of every entity to that
  entity (to the last one with this id, should an id occur twice).
\<close>

theorem index_last_write_wins:
  assumes "loadBookWrapped env tr (getId b) = Inr w"
  shows "\<exists>b' ia na ig ng.
      loadBook env (b, tr) = (Inr (), (b', tr @ [LoadBookWrapped (getId b)])) \<and>
      idAccountMap b' = Some ia \<and> nameAccountMap b' = Some na \<and>
      idGroupMap b' = Some ig \<and> nameGroupMap b' = Some ng \<and>
      (\<forall>j k. lastWithKey (accountNormalizedName env) (bk_accounts w) j k \<longrightarrow>
         na k = Some \<lparr>account_wrapped = bk_accounts w ! j, account_book = Some (getId b)\<rparr>) \<and>
      (\<forall>j k. lastWithKey (\<lambda>a. jsKey (acc_id a)) (bk_accounts w) j k \<longrightarrow>
         ia k = Some \<lparr>account_wrapped = bk_accounts w ! j, account_book = Some (getId b)\<rparr>) \<and>
      (\<forall>j k. lastWithKey (\<lambda>g. normalizeName env (grp_name g)) (bk_groups w) j k \<longrightarrow>
         ng k = Some \<lparr>group_wrapped = bk_groups w ! j, group_book = Some (getId b)\<rparr>) \<and>
      (\<forall>j k. lastWithKey (\<lambda>g. jsKey (grp_id g)) (bk_groups w) j k \<longrightarrow>
         ig k = Some \<lparr>group_wrapped = bk_groups w ! j, group_book = Some (getId b)\<rparr>)"
proof -
  let ?bid = "getId b"
  let ?A = "\<lambda>a. \<lparr>account_wrapped = a, account_book = Some ?bid\<rparr>"
  let ?G = "\<lambda>g. \<lparr>group_wrapped = g, group_book = Some ?bid\<rparr>"
  let ?na = "map_of (rev (map (\<lambda>a. (accountNormalizedName env a, ?A a)) (bk_accounts w)))"
  let ?ia = "map_of (rev (map (\<lambda>a. (jsKey (acc_id a), ?A a)) (bk_accounts w)))"
  let ?ng = "map_of (rev (map (\<lambda>g. (normalizeName env (grp_name g), ?G g)) (bk_groups w)))"
  let ?ig = "map_of (rev (map (\<lambda>g. (jsKey (grp_id g), ?G g)) (bk_groups w)))"
  let ?b' = "configureAccounts env (bk_accounts w)
               (configureGroups env (bk_groups w) (b\<lparr>wrapped := Some w\<rparr>))"
  have i: "getId (b\<lparr>wrapped := Some w\<rparr>) = getId b" by (simp add: getId_def)
  have l: "loadBook env (b, tr) = (Inr (), (?b', tr @ [LoadBookWrapped (getId b)]))"
    by (simp add: loadBook_eq assms)
  have a: "idAccountMap ?b' = Some ?ia" "nameAccountMap ?b' = Some ?na"
    by (simp_all add: configureAccounts_eq foldl_configureAccount_step i wrapAccounts_def
          comp_def accountGetId_def accountGetNormalizedName_def)
  have g: "idGroupMap ?b' = Some ?ig" "nameGroupMap ?b' = Some ?ng"
    by (simp_all add: configureAccounts_eq configureGroups_eq foldl_configureGroup_step i
          wrapGroups_def comp_def groupGetId_def groupGetName_def)
  have "?na k = Some (?A (bk_accounts w ! j))"
    if "lastWithKey (accountNormalizedName env) (bk_accounts w) j k" for j k
    using that unfolding lastWithKey_def by (intro map_of_rev_last) simp_all
  moreover have "?ia k = Some (?A (bk_accounts w ! j))"
    if "lastWithKey (\<lambda>a. jsKey (acc_id a)) (bk_accounts w) j k" for j k
    using that unfolding lastWithKey_def by (intro map_of_rev_last) simp_all
  moreover have "?ng k = Some (?G (bk_groups w ! j))"
    if "lastWithKey (\<lambda>g. normalizeName env (grp_name g)) (bk_groups w) j k" for j k
    using that unfolding lastWithKey_def by (intro map_of_rev_last) simp_all
  moreover have "?ig k = Some (?G (bk_groups w ! j))"
    if "lastWithKey (\<lambda>g. jsKey (grp_id g)) (bk_groups w) j k" for j k
    using that unfolding lastWithKey_def by (intro map_of_rev_last) simp_all
  ultimately show ?thesis using l a g by blast
qed

text \<open>
  Claim C9 on the sample ledger, whose accounts \<open>Cash\<close> and \<open>cash\<close> normalize to the
  same key.
\<close>

theorem index_last_write_wins_witness:
  "accountNormalizedName exampleEnv exampleCash = ''cash'' \<and>
   accountNormalizedName exampleEnv exampleCashLower = ''cash'' \<and>
   (\<exists>b' ia na ig ng.
      loadBook exampleEnv (newBook ''b1'' None, []) = (Inr (), (b', [LoadBookWrapped ''b1''])) \<and>
      idAccountMap b' = Some ia \<and> nameAccountMap b' = Some na \<and>
      idGroupMap b' = Some ig \<and> nameGroupMap b' = Some ng \<and>
      na ''cash'' = Some \<lparr>account_wrapped = exampleCashLower, account_book = Some ''b1''\<rparr> \<and>
      ia ''a1'' = Some \<lparr>account_wrapped = exampleCash, account_book = Some ''b1''\<rparr> \<and>
      ia ''a2'' = Some \<lparr>account_wrapped = exampleCashLower, account_book = Some ''b1''\<rparr> \<and>
      ng ''assets'' = Some \<lparr>group_wrapped = exampleGroup, group_book = Some ''b1''\<rparr> \<and>
      ig ''g1'' = Some \<lparr>group_wrapped = exampleGroup, group_book = Some ''b1''\<rparr>)"
proof -
  have n: "accountNormalizedName exampleEnv exampleCash = ''cash''"
    "accountNormalizedName exampleEnv exampleCashLower = ''cash''"
    "normalizeName exampleEnv ''Assets'' = ''assets''"
    by (simp_all add: exampleEnv_def exampleCash_def exampleCashLower_def exampleLower_def)
  have i: "getId (newBook ''b1'' None) = ''b1''" by (simp add: getId_def newBook_fields)
  have k: "lastWithKey (accountNormalizedName exampleEnv) (bk_accounts exampleBook) 1 ''cash''"
    "lastWithKey (\<lambda>a. jsKey (acc_id a)) (bk_accounts exampleBook) 0 ''a1''"
    "lastWithKey (\<lambda>a. jsKey (acc_id a)) (bk_accounts exampleBook) 1 ''a2''"
    "lastWithKey (\<lambda>g. normalizeName exampleEnv (grp_name g)) (bk_groups exampleBook) 0 ''assets''"
    "lastWithKey (\<lambda>g. jsKey (grp_id g)) (bk_groups exampleBook) 0 ''g1''"
    by (simp_all add: lastWithKey_def exampleBook_def n jsKey_def)
       (simp_all add: exampleCash_def exampleCashLower_def exampleGroup_def n)
  have x: "bk_accounts exampleBook ! 0 = exampleCash" "bk_accounts exampleBook ! Suc 0 = exampleCashLower"
    "bk_groups exampleBook ! 0 = exampleGroup"
    by (simp_all add: exampleBook_def)
  from index_last_write_wins[of exampleEnv "[]" "newBook ''b1'' None" exampleBook, OF example_load]
  obtain b' ia na ig ng where
    l: "loadBook exampleEnv (newBook ''b1'' None, []) = (Inr (), (b', [LoadBookWrapped ''b1'']))"
    and m: "idAccountMap b' = Some ia" "nameAccountMap b' = Some na"
      "idGroupMap b' = Some ig" "nameGroupMap b' = Some ng"
    and na: "\<And>j k. lastWithKey (accountNormalizedName exampleEnv) (bk_accounts exampleBook) j k \<Longrightarrow>
         na k = Some \<lparr>account_wrapped = bk_accounts exampleBook ! j, account_book = Some ''b1''\<rparr>"
    and ia: "\<And>j k. lastWithKey (\<lambda>a. jsKey (acc_id a)) (bk_accounts exampleBook) j k \<Longrightarrow>
         ia k = Some \<lparr>account_wrapped = bk_accounts exampleBook ! j, account_book = Some ''b1''\<rparr>"
    and ng: "\<And>j k. lastWithKey (\<lambda>g. normalizeName exampleEnv (grp_name g)) (bk_groups exampleBook) j k \<Longrightarrow>
         ng k = Some \<lparr>group_wrapped = bk_groups exampleBook ! j, group_book = Some ''b1''\<rparr>"
    and ig: "\<And>j k. lastWithKey (\<lambda>g. jsKey (grp_id g)) (bk_groups exampleBook) j k \<Longrightarrow>
         ig k = Some \<lparr>group_wrapped = bk_groups exampleBook ! j, group_book = Some ''b1''\<rparr>"
    unfolding i by auto
  from na[OF k(1)] ia[OF k(2)] ia[OF k(3)] ng[OF k(4)] ig[OF k(5)] l m n(1,2)
  show ?thesis by (simp add: x)
qed

text \<open>
  Claim C10: a call of \<open>getSavedQueries\<close> that returns a list stores it and makes at most
  one remote call. After it, whatever public methods are called (accessors, lookups,
  mutations, \<open>clearAccountsCache\<close>), \<open>getSavedQueries\<close> returns the same list, leaves
  the state as it is, and the number of fetches of the saved queries in the log never
  grows again.
\<close>

theorem savedQueries_fetched_once:
  assumes "getSavedQueries env s = (Inr qs, s')"
  shows "savedQueries (fst s') = Some qs \<and>
         savedQueryFetches (snd s') \<le> savedQueryFetches (snd s) + 1 \<and>
         (\<forall>ms. getSavedQueries env (run env ms s') = (Inr qs, run env ms s') \<and>
               savedQueryFetches (snd (run env ms s')) = savedQueryFetches (snd s'))"
proof -
  obtain b tr where s: "s = (b, tr)" by (cases s)
  from assms have c: "savedQueries (fst s') = Some qs"
    and f: "savedQueryFetches (snd s') \<le> savedQueryFetches (snd s) + 1"
    by (auto simp: getSavedQueries_def andThen_def callGetSavedQueries_def remoteCall_def s
          savedQueryFetches_def split: option.splits sum.splits)
  have "getSavedQueries env (run env ms s') = (Inr qs, run env ms s') \<and>
        savedQueryFetches (snd (run env ms s')) = savedQueryFetches (snd s')" for ms
  proof -
    from run_stable[OF stable_savedQueries[of env qs "savedQueryFetches (snd s')"], of s' ms] c
    have "savedQueries (fst (run env ms s')) = Some qs"
      and "savedQueryFetches (snd (run env ms s')) = savedQueryFetches (snd s')"
      by simp_all
    then show ?thesis by (simp add: getSavedQueries_def)
  qed
  with c f show ?thesis by blast
qed

text \<open>
  Claim C10 on the sample ledger: the list is fetched once, and is still served from the
  Book after three mutations, a cache clear and a second call.
\<close>

theorem savedQueries_fetched_once_witness:
  "fst (getSavedQueries exampleEnv (newBook ''b1'' None, [])) =
     Inr [\<lparr>qry_id = ''q1'', qry_query = ''account:Cash'', qry_title = ''Cash''\<rparr>] \<and>
   fst (getSavedQueries exampleEnv
     (run exampleEnv
        [Mutation (BatchCreateAccounts [exampleAccount]),
         Mutation (BatchCreateTransactions [exampleTransaction]),
         Mutation (Record (Text ''#gas 63.23'') None),
         ClearAccountsCache, GetSavedQueriesList]
        (snd (getSavedQueries exampleEnv (newBook ''b1'' None, []))))) =
     Inr [\<lparr>qry_id = ''q1'', qry_query = ''account:Cash'', qry_title = ''Cash''\<rparr>] \<and>
   savedQueryFetches (snd (run exampleEnv
        [Mutation (BatchCreateAccounts [exampleAccount]),
         Mutation (BatchCreateTransactions [exampleTransaction]),
         Mutation (Record (Text ''#gas 63.23'') None),
         ClearAccountsCache, GetSavedQueriesList]
        (snd (getSavedQueries exampleEnv (newBook ''b1'' None, []))))) = 1"
proof -
  let ?qs = "[\<lparr>qry_id = ''q1'', qry_query = ''account:Cash'', qry_title = ''Cash''\<rparr>]"
  let ?s' = "((newBook ''b1'' None)\<lparr>savedQueries := Some ?qs\<rparr>, [GetSavedQueries ''b1''])"
  have e: "getSavedQueries exampleEnv (newBook ''b1'' None, []) = (Inr ?qs, ?s')"
    by (simp add: getSavedQueries_def andThen_def callGetSavedQueries_def remoteCall_def
          newBook_fields getId_def exampleEnv_def)
  have f: "savedQueryFetches (snd ?s') = 1"
    by (simp add: savedQueryFetches_def isSavedQueryFetch_def)
  from savedQueries_fetched_once[OF e] f show ?thesis
    by (simp only: e fst_conv snd_conv)
qed

end
